theory Spec2Isabelle
  imports Complex_Main "HOL-Library.AList" "HOL-Library.Log_Nat"
begin

section \<open>Python values shared by the lesson scripts\<close>

text \<open>
  A Python \<open>str\<close> is modelled as a \<open>string\<close>: each \<open>char\<close> stands for the code point
  of the same number, so the model covers the strings over U+0000 .. U+00FF. Exceptions
  are values of \<open>py_error\<close>; a function that may raise returns \<open>py_error + 'a\<close>.
\<close>

datatype py_error = ValueError | IndexError | TypeError | ZeroDivisionError
  | OverflowError | KeyError | SqliteError

section \<open>Task (11\_advanced\_projects.py)\<close>

text \<open>
  The attributes of \<open>Task\<close> as \<open>__init__\<close> sets them. \<open>datetime\<close> values are kept
  abstract (\<open>'t\<close>); \<open>due_date\<close> and \<open>id\<close> may be \<open>None\<close>.
\<close>

record 't task =
  title :: string
  description :: string
  priority :: string
  status :: string
  due_date :: "'t option"
  created_at :: 't
  updated_at :: 't
  id :: "int option"

text \<open>\<open>Task.__init__\<close>; the two calls of \<open>datetime.now()\<close> return \<open>now1\<close> and \<open>now2\<close>.\<close>

definition task_init :: "'t \<Rightarrow> 't \<Rightarrow> string \<Rightarrow> string \<Rightarrow> string \<Rightarrow> 't option \<Rightarrow> 't task" where
  "task_init now1 now2 ttl descr prio due =
     \<lparr>title = ttl, description = descr, priority = prio, status = ''pending'',
      due_date = due, created_at = now1, updated_at = now2, id = None\<rparr>"

definition valid_statuses :: "string list" where
  "valid_statuses = [''pending'', ''in_progress'', ''completed'', ''cancelled'']"

text \<open>
  \<open>Task.update_status\<close>: \<open>now\<close> is what \<open>datetime.now()\<close> returns when it is called.
  The result is the returned flag and the task after the call.
\<close>

definition update_status :: "'t \<Rightarrow> 't task \<Rightarrow> string \<Rightarrow> bool \<times> 't task" where
  "update_status now self new_status =
     (if new_status \<in> set valid_statuses
      then (True, self\<lparr>status := new_status, updated_at := now\<rparr>)
      else (False, self))"

section \<open>Python list subscripts\<close>

text \<open>
  \<open>xs[i]\<close> and \<open>xs[i] = v\<close> on a Python list: a negative index counts from the end, an
  index outside \<open>-len(xs) .. len(xs) - 1\<close> raises \<open>IndexError\<close>.
\<close>

definition py_index :: "'a list \<Rightarrow> int \<Rightarrow> py_error + 'a" where
  "py_index xs i =
     (if 0 \<le> i \<and> i < int (length xs) then Inr (xs ! nat i)
      else if - int (length xs) \<le> i \<and> i < 0 then Inr (xs ! nat (int (length xs) + i))
      else Inl IndexError)"

definition py_store :: "'a list \<Rightarrow> int \<Rightarrow> 'a \<Rightarrow> py_error + 'a list" where
  "py_store xs i v =
     (if 0 \<le> i \<and> i < int (length xs) then Inr (xs[nat i := v])
      else if - int (length xs) \<le> i \<and> i < 0 then Inr (xs[nat (int (length xs) + i) := v])
      else Inl IndexError)"

section \<open>TicTacToe (12\_games\_and\_apps.py)\<close>

text \<open>
  The board is a list of rows, each a list of cells; a cell is one of the one-character
  strings \<open>' '\<close>, \<open>'X'\<close>, \<open>'O'\<close> and is modelled as a \<open>char\<close>.
\<close>

record tictactoe =
  board :: "char list list"
  current_player :: char
  game_over :: bool

definition tictactoe_init :: tictactoe where
  "tictactoe_init =
     \<lparr>board = replicate 3 (replicate 3 CHR '' ''), current_player = CHR ''X'',
      game_over = False\<rparr>"

text \<open>\<open>self.board[r][c]\<close>.\<close>

definition cell :: "char list list \<Rightarrow> int \<Rightarrow> int \<Rightarrow> py_error + char" where
  "cell b r c = (case py_index b r of Inl e \<Rightarrow> Inl e | Inr row \<Rightarrow> py_index row c)"

text \<open>
  \<open>TicTacToe.make_move\<close>. The two \<open>print\<close> calls do not touch the object and are left
  out. \<open>self.board[row][col] = v\<close> reads the row object and stores into it; the rows are
  distinct objects (built by the comprehension in \<open>__init__\<close>), so the store changes one
  row only.
\<close>

definition make_move :: "tictactoe \<Rightarrow> int \<Rightarrow> int \<Rightarrow> py_error + (bool \<times> tictactoe)" where
  "make_move self row col =
     (if row < 0 \<or> row \<ge> 3 \<or> col < 0 \<or> col \<ge> 3 then Inr (False, self)
      else case cell (board self) row col of
        Inl e \<Rightarrow> Inl e
      | Inr c \<Rightarrow>
          if c \<noteq> CHR '' '' then Inr (False, self)
          else (case py_index (board self) row of
            Inl e \<Rightarrow> Inl e
          | Inr r \<Rightarrow> (case py_store r col (current_player self) of
              Inl e \<Rightarrow> Inl e
            | Inr r' \<Rightarrow> (case py_store (board self) row r' of
                Inl e \<Rightarrow> Inl e
              | Inr b' \<Rightarrow> Inr (True, self\<lparr>board := b'\<rparr>)))))"

text \<open>
  The chained comparison \<open>x == y == z != ' '\<close>: \<open>x\<close> and \<open>y\<close> are evaluated and
  compared first, and \<open>z\<close> is evaluated only when they are equal.
\<close>

definition chain3 :: "py_error + char \<Rightarrow> py_error + char \<Rightarrow> py_error + char \<Rightarrow> py_error + bool" where
  "chain3 x y z =
     (case x of Inl e \<Rightarrow> Inl e | Inr a \<Rightarrow>
      case y of Inl e \<Rightarrow> Inl e | Inr b \<Rightarrow>
        if a \<noteq> b then Inr False
        else (case z of Inl e \<Rightarrow> Inl e | Inr c \<Rightarrow> Inr (b = c \<and> c \<noteq> CHR '' '')))"

text \<open>The loop \<open>for row in self.board\<close> of \<open>check_winner\<close>.\<close>

fun check_rows :: "char list list \<Rightarrow> py_error + char option" where
  "check_rows [] = Inr None"
| "check_rows (row # rows) =
     (case chain3 (py_index row 0) (py_index row 1) (py_index row 2) of
        Inl e \<Rightarrow> Inl e
      | Inr True \<Rightarrow> (case py_index row 0 of Inl e \<Rightarrow> Inl e | Inr m \<Rightarrow> Inr (Some m))
      | Inr False \<Rightarrow> check_rows rows)"

text \<open>The loop \<open>for col in range(3)\<close>, over the columns still to visit.\<close>

fun check_cols :: "char list list \<Rightarrow> int list \<Rightarrow> py_error + char option" where
  "check_cols b [] = Inr None"
| "check_cols b (col # cols) =
     (case chain3 (cell b 0 col) (cell b 1 col) (cell b 2 col) of
        Inl e \<Rightarrow> Inl e
      | Inr True \<Rightarrow> (case cell b 0 col of Inl e \<Rightarrow> Inl e | Inr m \<Rightarrow> Inr (Some m))
      | Inr False \<Rightarrow> check_cols b cols)"

definition check_diagonals :: "char list list \<Rightarrow> py_error + char option" where
  "check_diagonals b =
     (case chain3 (cell b 0 0) (cell b 1 1) (cell b 2 2) of
        Inl e \<Rightarrow> Inl e
      | Inr True \<Rightarrow> (case cell b 0 0 of Inl e \<Rightarrow> Inl e | Inr m \<Rightarrow> Inr (Some m))
      | Inr False \<Rightarrow>
         (case chain3 (cell b 0 2) (cell b 1 1) (cell b 2 0) of
            Inl e \<Rightarrow> Inl e
          | Inr True \<Rightarrow> (case cell b 0 2 of Inl e \<Rightarrow> Inl e | Inr m \<Rightarrow> Inr (Some m))
          | Inr False \<Rightarrow> Inr None))"

text \<open>\<open>TicTacToe.check_winner\<close>: rows, then columns, then the two diagonals.\<close>

definition check_winner :: "tictactoe \<Rightarrow> py_error + char option" where
  "check_winner self =
     (case check_rows (board self) of
        Inl e \<Rightarrow> Inl e
      | Inr (Some m) \<Rightarrow> Inr (Some m)
      | Inr None \<Rightarrow>
         (case check_cols (board self) [0, 1, 2] of
            Inl e \<Rightarrow> Inl e
          | Inr (Some m) \<Rightarrow> Inr (Some m)
          | Inr None \<Rightarrow> check_diagonals (board self)))"

definition switch_player :: "tictactoe \<Rightarrow> tictactoe" where
  "switch_player self =
     self\<lparr>current_player := (if current_player self = CHR ''X'' then CHR ''O'' else CHR ''X'')\<rparr>"

text \<open>
  Vocabulary of the statements about the board. A board is well formed when it has three
  rows of three cells, which \<open>__init__\<close> establishes and \<open>make_move\<close> keeps. The eight
  lines are listed in the order in which \<open>check_winner\<close> visits them; \<open>filled_with b l m\<close>
  says that the three cells of line \<open>l\<close> all hold the non-blank mark \<open>m\<close>.
\<close>

definition wf_board :: "char list list \<Rightarrow> bool" where
  "wf_board b = (length b = 3 \<and> list_all (\<lambda>r. length r = 3) b)"

definition winning_lines :: "(nat \<times> nat) list list" where
  "winning_lines =
     [[(0, 0), (0, 1), (0, 2)], [(1, 0), (1, 1), (1, 2)], [(2, 0), (2, 1), (2, 2)],
      [(0, 0), (1, 0), (2, 0)], [(0, 1), (1, 1), (2, 1)], [(0, 2), (1, 2), (2, 2)],
      [(0, 0), (1, 1), (2, 2)], [(0, 2), (1, 1), (2, 0)]]"

definition filled_with :: "char list list \<Rightarrow> (nat \<times> nat) list \<Rightarrow> char \<Rightarrow> bool" where
  "filled_with b l m = (m \<noteq> CHR '' '' \<and> list_all (\<lambda>(r, c). b ! r ! c = m) l)"

text \<open>The mark of the first filled line of a list of lines, if there is one.\<close>

fun first_filled :: "char list list \<Rightarrow> (nat \<times> nat) list list \<Rightarrow> char option" where
  "first_filled b [] = None"
| "first_filled b (l # ls) =
     (case l of
        (r, c) # _ \<Rightarrow> if filled_with b l (b ! r ! c) then Some (b ! r ! c) else first_filled b ls
      | [] \<Rightarrow> first_filled b ls)"

text \<open>The lines by kind: \<open>winning_lines\<close> is rows, then columns, then diagonals.\<close>

definition row_lines :: "(nat \<times> nat) list list" where
  "row_lines = [[(0, 0), (0, 1), (0, 2)], [(1, 0), (1, 1), (1, 2)], [(2, 0), (2, 1), (2, 2)]]"

definition col_lines :: "(nat \<times> nat) list list" where
  "col_lines = [[(0, 0), (1, 0), (2, 0)], [(0, 1), (1, 1), (2, 1)], [(0, 2), (1, 2), (2, 2)]]"

definition diag_lines :: "(nat \<times> nat) list list" where
  "diag_lines = [[(0, 0), (1, 1), (2, 2)], [(0, 2), (1, 1), (2, 0)]]"

text \<open>
  Calls made by a client of the class: each move that \<open>make_move\<close> accepts is followed by
  \<open>switch_player\<close>.
\<close>

fun play_moves :: "tictactoe \<Rightarrow> (int \<times> int) list \<Rightarrow> py_error + tictactoe" where
  "play_moves s [] = Inr s"
| "play_moves s ((r, c) # ms) =
     (case make_move s r c of
        Inl e \<Rightarrow> Inl e
      | Inr (True, s') \<Rightarrow> play_moves (switch_player s') ms
      | Inr (False, s') \<Rightarrow> play_moves s' ms)"

text \<open>Two boards used as concrete inputs.\<close>

definition two_lines :: tictactoe where
  "two_lines =
     \<lparr>board = [[CHR ''X'', CHR ''X'', CHR ''X''], [CHR ''O'', CHR ''O'', CHR ''O''],
               [CHR '' '', CHR '' '', CHR '' '']],
      current_player = CHR ''X'', game_over = False\<rparr>"

definition column_of_O :: tictactoe where
  "column_of_O =
     \<lparr>board = [[CHR ''X'', CHR ''O'', CHR ''X''], [CHR '' '', CHR ''O'', CHR ''X''],
               [CHR '' '', CHR ''O'', CHR '' '']],
      current_player = CHR ''X'', game_over = False\<rparr>"

section \<open>TextEncryptionTool (13\_utility\_tools.py)\<close>

text \<open>
  \<open>str.islower()\<close> and \<open>str.isupper()\<close> on a one-character string, for the code points
  U+0000 .. U+00FF: the characters with the Unicode property Lowercase are a-z, U+00AA,
  U+00B5, U+00BA, U+00DF .. U+00F6 and U+00F8 .. U+00FF; those with the property
  Uppercase are A-Z, U+00C0 .. U+00D6 and U+00D8 .. U+00DE.
\<close>

definition py_islower :: "char \<Rightarrow> bool" where
  "py_islower c =
     (let n = (of_char c :: nat)
      in (97 \<le> n \<and> n \<le> 122) \<or> n = 170 \<or> n = 181 \<or> n = 186
         \<or> (223 \<le> n \<and> n \<le> 246) \<or> (248 \<le> n \<and> n \<le> 255))"

definition py_isupper :: "char \<Rightarrow> bool" where
  "py_isupper c =
     (let n = (of_char c :: nat)
      in (65 \<le> n \<and> n \<le> 90) \<or> (192 \<le> n \<and> n \<le> 214) \<or> (216 \<le> n \<and> n \<le> 222))"

text \<open>\<open>s.index(c)\<close> for a one-character \<open>c\<close>: the first position of \<open>c\<close>, or \<open>ValueError\<close>.\<close>

fun str_index :: "string \<Rightarrow> char \<Rightarrow> py_error + int" where
  "str_index [] c = Inl ValueError"
| "str_index (x # xs) c =
     (if x = c then Inr 0
      else case str_index xs c of Inl e \<Rightarrow> Inl e | Inr i \<Rightarrow> Inr (i + 1))"

text \<open>The attributes \<open>alphabet\<close> and \<open>alphabet_upper\<close>, set once by \<open>__init__\<close>.\<close>

definition alphabet :: string where
  "alphabet = ''abcdefghijklmnopqrstuvwxyz''"

definition alphabet_upper :: string where
  "alphabet_upper = ''ABCDEFGHIJKLMNOPQRSTUVWXYZ''"

text \<open>
  The loop \<open>for char in text\<close> of \<open>caesar_cipher\<close>, with the string built so far. \<open>mod\<close>
  on \<open>int\<close> is Python's \<open>%\<close>: the result has the sign of the divisor.
\<close>

fun caesar_loop :: "int \<Rightarrow> string \<Rightarrow> string \<Rightarrow> py_error + string" where
  "caesar_loop shift [] result = Inr result"
| "caesar_loop shift (char # text) result =
     (if py_islower char then
        (case str_index alphabet char of
           Inl e \<Rightarrow> Inl e
         | Inr current_pos \<Rightarrow>
            (case py_index alphabet ((current_pos + shift) mod 26) of
               Inl e \<Rightarrow> Inl e
             | Inr new_char \<Rightarrow> caesar_loop shift text (result @ [new_char])))
      else if py_isupper char then
        (case str_index alphabet_upper char of
           Inl e \<Rightarrow> Inl e
         | Inr current_pos \<Rightarrow>
            (case py_index alphabet_upper ((current_pos + shift) mod 26) of
               Inl e \<Rightarrow> Inl e
             | Inr new_char \<Rightarrow> caesar_loop shift text (result @ [new_char])))
      else caesar_loop shift text (result @ [char]))"

definition caesar_cipher :: "string \<Rightarrow> int \<Rightarrow> bool \<Rightarrow> py_error + string" where
  "caesar_cipher text shift encrypt =
     caesar_loop (if encrypt then shift else - shift) text []"

text \<open>
  The cipher as the specification words it: a letter moves to the letter \<open>shift\<close>
  positions further in its alphabet, modulo 26; any other character stays.
\<close>

definition rotate :: "string \<Rightarrow> int \<Rightarrow> char \<Rightarrow> char" where
  "rotate abc shift c =
     (case str_index abc c of Inl e \<Rightarrow> c | Inr p \<Rightarrow> abc ! nat ((p + shift) mod 26))"

definition caesar_char :: "int \<Rightarrow> char \<Rightarrow> char" where
  "caesar_char shift c =
     (if c \<in> set alphabet then rotate alphabet shift c
      else if c \<in> set alphabet_upper then rotate alphabet_upper shift c
      else c)"

text \<open>
  A character is plain when the two case tests agree with the two alphabets: every
  character below U+0080 is plain, and so is every character that is not cased.
\<close>

definition plain_char :: "char \<Rightarrow> bool" where
  "plain_char c = ((py_islower c \<longrightarrow> c \<in> set alphabet) \<and> (py_isupper c \<longrightarrow> c \<in> set alphabet_upper))"

section \<open>HangmanGame (12\_games\_and\_apps.py)\<close>

text \<open>
  \<open>str.lower()\<close> on the code points U+0000 .. U+00FF: each uppercase character moves 32
  code points up, every other character stays.
\<close>

definition py_lower :: "string \<Rightarrow> string" where
  "py_lower s = map (\<lambda>c. if py_isupper c then char_of (of_char c + (32::nat)) else c) s"

text \<open>\<open>sub in s\<close> on strings: \<open>sub\<close> occurs in \<open>s\<close> as a contiguous substring.\<close>

fun str_contains :: "string \<Rightarrow> string \<Rightarrow> bool" where
  "str_contains [] sub = (sub = [])"
| "str_contains (x # xs) sub = (take (length sub) (x # xs) = sub \<or> str_contains xs sub)"

record hangman =
  words :: "string list"
  word :: string
  guessed_letters :: "string set"
  wrong_guesses :: int
  max_wrong_guesses :: int

definition hangman_init :: hangman where
  "hangman_init =
     \<lparr>words = [''python'', ''programming'', ''computer'', ''algorithm'', ''function'',
               ''variable'', ''dictionary'', ''list'', ''string'', ''integer'',
               ''boolean'', ''class'', ''object'', ''method'', ''inheritance''],
      word = '''', guessed_letters = {}, wrong_guesses = 0, max_wrong_guesses = 6\<rparr>"

text \<open>
  \<open>select_random_word\<close>: \<open>random.choice(self.words)\<close> returns \<open>self.words[r]\<close> for an
  index \<open>r\<close> below \<open>len(self.words)\<close> drawn by the generator; \<open>r\<close> is a parameter.
\<close>

definition select_random_word :: "nat \<Rightarrow> hangman \<Rightarrow> hangman" where
  "select_random_word r self =
     self\<lparr>word := py_lower (words self ! r), guessed_letters := {}, wrong_guesses := 0\<rparr>"

text \<open>\<open>make_guess\<close> returns its flag and the object after the call; the prints are left out.\<close>

definition make_guess :: "hangman \<Rightarrow> string \<Rightarrow> bool \<times> hangman" where
  "make_guess self letter0 =
     (let letter = py_lower letter0 in
      if letter \<in> guessed_letters self then (False, self)
      else
        let self1 = self\<lparr>guessed_letters := insert letter (guessed_letters self)\<rparr> in
        if str_contains (word self1) letter then (True, self1)
        else (False, self1\<lparr>wrong_guesses := wrong_guesses self1 + 1\<rparr>))"

definition is_game_lost :: "hangman \<Rightarrow> bool" where
  "is_game_lost self = (wrong_guesses self \<ge> max_wrong_guesses self)"

text \<open>A sequence of \<open>make_guess\<close> calls, the returned flags dropped.\<close>

definition make_guesses :: "hangman \<Rightarrow> string list \<Rightarrow> hangman" where
  "make_guesses self gs = foldl (\<lambda>s g. snd (make_guess s g)) self gs"

text \<open>The guessed letters that do not occur in the word.\<close>

definition wrong_letters :: "hangman \<Rightarrow> string set" where
  "wrong_letters self = {g \<in> guessed_letters self. \<not> str_contains (word self) g}"

text \<open>The invariant of the counter.\<close>

definition hangman_inv :: "hangman \<Rightarrow> bool" where
  "hangman_inv s = (finite (guessed_letters s) \<and> wrong_guesses s = int (card (wrong_letters s)))"

section \<open>NoteTakingApp (12\_games\_and\_apps.py)\<close>

text \<open>
  A note is a Python \<open>dict\<close> with string keys: an association list in insertion order,
  with distinct keys. Its values are the integer id and strings. \<open>d[k]\<close> raises
  \<open>KeyError\<close> for a missing key; \<open>d[k] = v\<close> replaces the value of a key in place and
  puts a new key at the end, which is \<open>AList.update\<close>.
\<close>

datatype jval = JInt int | JStr string

type_synonym note_dict = "(string \<times> jval) list"

definition dict_get :: "note_dict \<Rightarrow> string \<Rightarrow> py_error + jval" where
  "dict_get d k = (case map_of d k of None \<Rightarrow> Inl KeyError | Some v \<Rightarrow> Inr v)"

record note_app =
  "notes" :: "note_dict list"
  categories :: "string set"
  filename :: string

text \<open>
  The object after \<open>__init__\<close> when \<open>notes.json\<close> does not exist: \<open>load_notes\<close> then
  leaves \<open>notes\<close> empty.
\<close>

definition note_app_init :: note_app where
  "note_app_init = \<lparr>notes = [], categories = {}, filename = ''notes.json''\<rparr>"

text \<open>
  \<open>create_note\<close>: \<open>now1\<close> and \<open>now2\<close> are the values of the two calls of
  \<open>datetime.now().isoformat()\<close>. \<open>save_notes\<close> writes \<open>self.notes\<close> to the file,
  prints, and catches every \<open>Exception\<close>: it does not touch the object, and the file
  is not part of the model.
\<close>

definition create_note :: "string \<Rightarrow> string \<Rightarrow> note_app \<Rightarrow> string \<Rightarrow> string \<Rightarrow> string \<Rightarrow> note_app" where
  "create_note now1 now2 self ttl content category =
     (let note = [(''id'', JInt (int (length (notes self)) + 1)),
                  (''title'', JStr ttl),
                  (''content'', JStr content),
                  (''category'', JStr category),
                  (''created_at'', JStr now1),
                  (''updated_at'', JStr now2)]
      in self\<lparr>notes := notes self @ [note], categories := insert category (categories self)\<rparr>)"

text \<open>
  An optional argument is \<open>None\<close> or a string; \<open>if new_title:\<close> is false for \<open>None\<close> and
  for the empty string.
\<close>

definition truthy :: "string option \<Rightarrow> bool" where
  "truthy a = (case a of None \<Rightarrow> False | Some s \<Rightarrow> s \<noteq> [])"

text \<open>The body of the \<open>if note["id"] == note_id\<close> branch of \<open>edit_note\<close>, on the note.\<close>

definition edit_fields :: "string \<Rightarrow> string option \<Rightarrow> string option \<Rightarrow> string option \<Rightarrow> note_dict \<Rightarrow> note_dict" where
  "edit_fields now new_title new_content new_category note =
     (let n1 = (if truthy new_title then AList.update ''title'' (JStr (the new_title)) note else note);
          n2 = (if truthy new_content then AList.update ''content'' (JStr (the new_content)) n1 else n1);
          n3 = (if truthy new_category then AList.update ''category'' (JStr (the new_category)) n2 else n2)
      in AList.update ''updated_at'' (JStr now) n3)"

text \<open>
  The loop \<open>for note in self.notes\<close> of \<open>edit_note\<close>: the list after the first note
  whose id equals \<open>note_id\<close> has been edited, or \<open>None\<close> when the loop ends without a
  match. The notes are distinct objects, so editing one leaves the others as they are.
\<close>

fun edit_loop :: "string \<Rightarrow> int \<Rightarrow> string option \<Rightarrow> string option \<Rightarrow> string option \<Rightarrow> note_dict list
    \<Rightarrow> py_error + note_dict list option" where
  "edit_loop now note_id nt nc ncat [] = Inr None"
| "edit_loop now note_id nt nc ncat (note # rest) =
     (case dict_get note ''id'' of
        Inl e \<Rightarrow> Inl e
      | Inr v \<Rightarrow>
          if v = JInt note_id then Inr (Some (edit_fields now nt nc ncat note # rest))
          else (case edit_loop now note_id nt nc ncat rest of
                  Inl e \<Rightarrow> Inl e
                | Inr None \<Rightarrow> Inr None
                | Inr (Some rest') \<Rightarrow> Inr (Some (note # rest'))))"

definition edit_note :: "string \<Rightarrow> note_app \<Rightarrow> int \<Rightarrow> string option \<Rightarrow> string option \<Rightarrow> string option
    \<Rightarrow> py_error + (bool \<times> note_app)" where
  "edit_note now self note_id new_title new_content new_category =
     (case edit_loop now note_id new_title new_content new_category (notes self) of
        Inl e \<Rightarrow> Inl e
      | Inr None \<Rightarrow> Inr (False, self)
      | Inr (Some ns) \<Rightarrow>
          Inr (True, self\<lparr>notes := ns,
                 categories := (if truthy new_category
                                then insert (the new_category) (categories self)
                                else categories self)\<rparr>))"

text \<open>
  The loop \<open>for i, note in enumerate(self.notes)\<close> of \<open>delete_note\<close>: the list after
  \<open>self.notes.pop(i)\<close> at the first match, or \<open>None\<close>.
\<close>

fun delete_loop :: "int \<Rightarrow> note_dict list \<Rightarrow> py_error + note_dict list option" where
  "delete_loop note_id [] = Inr None"
| "delete_loop note_id (note # rest) =
     (case dict_get note ''id'' of
        Inl e \<Rightarrow> Inl e
      | Inr v \<Rightarrow>
          if v = JInt note_id then Inr (Some rest)
          else (case delete_loop note_id rest of
                  Inl e \<Rightarrow> Inl e
                | Inr None \<Rightarrow> Inr None
                | Inr (Some rest') \<Rightarrow> Inr (Some (note # rest'))))"

definition delete_note :: "note_app \<Rightarrow> int \<Rightarrow> py_error + (bool \<times> note_app)" where
  "delete_note self note_id =
     (case delete_loop note_id (notes self) of
        Inl e \<Rightarrow> Inl e
      | Inr None \<Rightarrow> Inr (False, self)
      | Inr (Some ns) \<Rightarrow> Inr (True, self\<lparr>notes := ns\<rparr>))"

text \<open>The notes that the statements below name.\<close>

definition note_b :: note_dict where
  "note_b = [(''id'', JInt 2), (''title'', JStr ''B''), (''content'', JStr ''second''),
             (''category'', JStr ''General''), (''created_at'', JStr ''t3''),
             (''updated_at'', JStr ''t4'')]"

definition note_c :: note_dict where
  "note_c = [(''id'', JInt 2), (''title'', JStr ''C''), (''content'', JStr ''third''),
             (''category'', JStr ''Work''), (''created_at'', JStr ''t5''),
             (''updated_at'', JStr ''t6'')]"

text \<open>Create A, create B, delete note 1, create C.\<close>

definition duplicate_id_app :: "py_error + note_app" where
  "duplicate_id_app =
     (let s1 = create_note ''t1'' ''t2'' note_app_init ''A'' ''first'' ''General'';
          s2 = create_note ''t3'' ''t4'' s1 ''B'' ''second'' ''General''
      in case delete_note s2 1 of
           Inl e \<Rightarrow> Inl e
         | Inr (_, s3) \<Rightarrow> Inr (create_note ''t5'' ''t6'' s3 ''C'' ''third'' ''Work''))"

section \<open>safe\_divide (07\_error\_handling.py)\<close>

text \<open>
  The numbers are Python's ints (\<open>True\<close> and \<open>False\<close> are the ints 1 and 0) and floats;
  the script also passes a str. A float is an IEEE double: a finite double is given by
  its exact value, a rational, with \<open>Finite 0\<close> for \<open>0.0\<close>; the other floats are
  \<open>-0.0\<close>, the two infinities and NaN.
\<close>

datatype pyfloat = Finite rat | NegZero | PosInf | NegInf | NaN

datatype pyarg = AInt int | AFloat pyfloat | AStr string

text \<open>For \<open>q > 0\<close>, the exponent \<open>e\<close> with \<open>2^e \<le> q < 2^(e+1)\<close>.\<close>

definition ilog2 :: "rat \<Rightarrow> int" where
  "ilog2 q =
     (let (n, d) = quotient_of q;
          e0 = int (floorlog 2 (nat n)) - int (floorlog 2 (nat d))
      in if 2 powi e0 \<le> q then e0 else e0 - 1)"

definition round_half_even :: "rat \<Rightarrow> int" where
  "round_half_even q =
     (let f = \<lfloor>q\<rfloor>; r = q - of_int f
      in if r < 1 / 2 then f else if 1 / 2 < r then f + 1
         else if even f then f else f + 1)"

text \<open>
  Rounding to a double: 53 significant bits, the exponent of the last bit not below
  \<open>-1074\<close>.
\<close>

definition round_double :: "rat \<Rightarrow> rat" where
  "round_double q =
     (if q = 0 then 0
      else let a = \<bar>q\<bar>;
               p = max (ilog2 a - 52) (- 1074);
               m = round_half_even (a / 2 powi p)
           in sgn q * of_int m * 2 powi p)"

definition signed_zero :: "bool \<Rightarrow> pyfloat" where
  "signed_zero neg = (if neg then NegZero else Finite 0)"

definition signed_inf :: "bool \<Rightarrow> pyfloat" where
  "signed_inf neg = (if neg then NegInf else PosInf)"

definition float_is_zero :: "pyfloat \<Rightarrow> bool" where
  "float_is_zero x = (x = Finite 0 \<or> x = NegZero)"

definition float_is_inf :: "pyfloat \<Rightarrow> bool" where
  "float_is_inf x = (x = PosInf \<or> x = NegInf)"

text \<open>The sign bit and the magnitude of a float that is not NaN.\<close>

definition float_negative :: "pyfloat \<Rightarrow> bool" where
  "float_negative x = (case x of Finite q \<Rightarrow> q < 0 | NegZero \<Rightarrow> True | NegInf \<Rightarrow> True | _ \<Rightarrow> False)"

definition float_magnitude :: "pyfloat \<Rightarrow> rat" where
  "float_magnitude x = (case x of Finite q \<Rightarrow> \<bar>q\<bar> | _ \<Rightarrow> 0)"

text \<open>
  The double for a sign and an exact magnitude: rounded to nearest, an infinity when the
  rounded magnitude is beyond the largest double, a zero when it rounds to zero.
\<close>

definition make_float :: "bool \<Rightarrow> rat \<Rightarrow> pyfloat" where
  "make_float neg q =
     (let r = round_double q
      in if 2 ^ 1024 \<le> r then signed_inf neg
         else if r = 0 then signed_zero neg
         else Finite (if neg then - r else r))"

text \<open>The IEEE quotient \<open>x / y\<close> of two doubles, for \<open>y\<close> other than a zero.\<close>

definition float_quot :: "pyfloat \<Rightarrow> pyfloat \<Rightarrow> pyfloat" where
  "float_quot x y =
     (if x = NaN \<or> y = NaN then NaN
      else if float_is_inf x then
        (if float_is_inf y then NaN else signed_inf (float_negative x \<noteq> float_negative y))
      else if float_is_inf y then signed_zero (float_negative x \<noteq> float_negative y)
      else make_float (float_negative x \<noteq> float_negative y)
             (float_magnitude x / float_magnitude y))"

text \<open>
  \<open>a / b\<close> is Python's true division. On two floats it raises \<open>ZeroDivisionError\<close>
  when \<open>b\<close> is \<open>0.0\<close> or \<open>-0.0\<close> and otherwise returns the IEEE quotient, without any
  other exception. An int operand beside a float is converted to a float first, the
  left operand before the right one and before the test for zero, and the conversion
  raises \<open>OverflowError\<close> when the int is beyond the range of a double. On two ints it
  raises \<open>ZeroDivisionError\<close> when \<open>b\<close> is 0, otherwise it returns the double nearest
  to the exact quotient and raises \<open>OverflowError\<close> when that is beyond the range of a
  double. With a str on either side it raises \<open>TypeError\<close>.
\<close>

definition float_truediv :: "pyfloat \<Rightarrow> pyfloat \<Rightarrow> py_error + pyfloat" where
  "float_truediv x y = (if float_is_zero y then Inl ZeroDivisionError else Inr (float_quot x y))"

definition int_to_float :: "int \<Rightarrow> py_error + pyfloat" where
  "int_to_float n =
     (let r = round_double (of_int \<bar>n\<bar>)
      in if 2 ^ 1024 \<le> r then Inl OverflowError
         else Inr (Finite (if n < 0 then - r else r)))"

definition int_truediv :: "int \<Rightarrow> int \<Rightarrow> py_error + pyfloat" where
  "int_truediv a b =
     (if b = 0 then Inl ZeroDivisionError
      else let r = round_double (of_int \<bar>a\<bar> / of_int \<bar>b\<bar>)
           in if 2 ^ 1024 \<le> r then Inl OverflowError
              else if r = 0 then Inr (signed_zero ((a < 0) \<noteq> (b < 0)))
              else Inr (Finite (if (a < 0) \<noteq> (b < 0) then - r else r)))"

fun truediv :: "pyarg \<Rightarrow> pyarg \<Rightarrow> py_error + pyfloat" where
  "truediv (AInt a) (AInt b) = int_truediv a b"
| "truediv (AInt a) (AFloat y) =
     (case int_to_float a of Inl e \<Rightarrow> Inl e | Inr x \<Rightarrow> float_truediv x y)"
| "truediv (AFloat x) (AInt b) =
     (case int_to_float b of Inl e \<Rightarrow> Inl e | Inr y \<Rightarrow> float_truediv x y)"
| "truediv (AFloat x) (AFloat y) = float_truediv x y"
| "truediv _ _ = Inl TypeError"

text \<open>
  \<open>safe_divide\<close>: the result is what the call returns (a float or \<open>None\<close>) or the
  exception that leaves it, together with the lines it prints.
\<close>

definition safe_divide :: "pyarg \<Rightarrow> pyarg \<Rightarrow> (py_error + pyfloat option) \<times> string list" where
  "safe_divide a b =
     (case truediv a b of
        Inr result \<Rightarrow> (Inr (Some result), [])
      | Inl ZeroDivisionError \<Rightarrow> (Inr None, [''Error: Division by zero!''])
      | Inl TypeError \<Rightarrow> (Inr None, [''Error: Both arguments must be numbers!''])
      | Inl e \<Rightarrow> (Inl e, []))"

text \<open>The arguments that are numbers, and the numbers that are zero.\<close>

fun is_number :: "pyarg \<Rightarrow> bool" where
  "is_number (AInt n) = True"
| "is_number (AFloat x) = True"
| "is_number (AStr s) = False"

fun is_zero :: "pyarg \<Rightarrow> bool" where
  "is_zero (AInt n) = (n = 0)"
| "is_zero (AFloat x) = float_is_zero x"
| "is_zero (AStr s) = False"

section \<open>transaction\_example (10\_database\_operations.py)\<close>

text \<open>
  A row of the table \<open>accounts\<close> is \<open>(id, name, balance)\<close>. The column \<open>balance\<close> is
  \<open>REAL\<close>; the balances of the example are whole numbers far below \<open>2^53\<close>, on which
  the arithmetic of doubles is exact, and are modelled as \<open>int\<close>.

  The state of the connection: the committed content of the table, the content that the
  connection sees (with its uncommitted changes), and whether a transaction is open.
\<close>

type_synonym account_row = "int \<times> string \<times> int"

record db =
  committed :: "account_row list"
  working :: "account_row list"
  in_transaction :: bool

text \<open>
  The statements, as SQLite and the \<open>sqlite3\<close> module run them. A data-changing
  statement outside a transaction opens one implicitly; \<open>BEGIN\<close> inside a transaction is
  an error; \<open>commit\<close> and \<open>rollback\<close> without an open transaction change nothing;
  closing the connection drops the uncommitted changes.
\<close>

definition sql_begin :: "db \<Rightarrow> py_error + db" where
  "sql_begin d = (if in_transaction d then Inl SqliteError else Inr (d\<lparr>in_transaction := True\<rparr>))"

definition sql_delete_all :: "db \<Rightarrow> db" where
  "sql_delete_all d = d\<lparr>working := [], in_transaction := True\<rparr>"

definition sql_insert :: "string \<Rightarrow> int \<Rightarrow> db \<Rightarrow> db" where
  "sql_insert nm bal d =
     d\<lparr>working := working d @ [(fold max (map fst (working d)) 0 + 1, nm, bal)],
       in_transaction := True\<rparr>"

definition sql_add_balance :: "string \<Rightarrow> int \<Rightarrow> db \<Rightarrow> db" where
  "sql_add_balance nm delta d =
     d\<lparr>working := map (\<lambda>(i, n, bal). if n = nm then (i, n, bal + delta) else (i, n, bal))
                      (working d),
       in_transaction := True\<rparr>"

definition sql_select_balance :: "string \<Rightarrow> db \<Rightarrow> int option" where
  "sql_select_balance nm d =
     (case filter (\<lambda>(i, n, bal). n = nm) (working d) of
        [] \<Rightarrow> None
      | (i, n, bal) # _ \<Rightarrow> Some bal)"

definition sql_commit :: "db \<Rightarrow> db" where
  "sql_commit d = d\<lparr>committed := working d, in_transaction := False\<rparr>"

definition sql_rollback :: "db \<Rightarrow> db" where
  "sql_rollback d = d\<lparr>working := committed d, in_transaction := False\<rparr>"

definition sql_close :: "db \<Rightarrow> db" where
  "sql_close d = d\<lparr>working := committed d, in_transaction := False\<rparr>"

text \<open>
  The part of \<open>transaction_example\<close> before the \<open>try\<close>: clear the table, insert the two
  accounts with the balances \<open>a\<close> and \<open>b\<close> (1000 and 500 in the source), commit.
\<close>

definition setup_accounts :: "int \<Rightarrow> int \<Rightarrow> db \<Rightarrow> db" where
  "setup_accounts a b d =
     sql_commit (sql_insert ''Bob'' b (sql_insert ''Alice'' a (sql_delete_all d)))"

text \<open>
  The body of the \<open>try\<close>. Any call on the connection may raise \<open>sqlite3.Error\<close>, and
  then has no effect: \<open>fails k\<close> says that call number \<open>k\<close> does (0 \<open>BEGIN\<close>, 1 and 2
  the updates, 3 the \<open>SELECT\<close> of Alice's balance, 4 the rollback or the commit, 5 the
  final \<open>SELECT\<close>). The result is the state at the end of the body, or the exception
  with the state at the point where it is raised. \<open>fetchone()[0]\<close> raises \<open>TypeError\<close>
  when no row is named Alice.
\<close>

definition transfer_body :: "(nat \<Rightarrow> bool) \<Rightarrow> db \<Rightarrow> (py_error \<times> db) + db" where
  "transfer_body fails d0 =
     (if fails 0 then Inl (SqliteError, d0)
      else case sql_begin d0 of
        Inl e \<Rightarrow> Inl (e, d0)
      | Inr d1 \<Rightarrow>
          if fails 1 then Inl (SqliteError, d1)
          else let d2 = sql_add_balance ''Alice'' (- 200) d1 in
          if fails 2 then Inl (SqliteError, d2)
          else let d3 = sql_add_balance ''Bob'' 200 d2 in
          if fails 3 then Inl (SqliteError, d3)
          else case sql_select_balance ''Alice'' d3 of
            None \<Rightarrow> Inl (TypeError, d3)
          | Some alice_balance \<Rightarrow>
              if alice_balance < 0 then
                (if fails 4 then Inl (SqliteError, d3) else Inr (sql_rollback d3))
              else
                (if fails 4 then Inl (SqliteError, d3)
                 else let d4 = sql_commit d3 in
                 if fails 5 then Inl (SqliteError, d4) else Inr d4))"

text \<open>
  The \<open>try\<close> statement with its handler \<open>except sqlite3.Error\<close>, whose \<open>conn.rollback()\<close>
  is call number 6, followed by \<open>conn.close()\<close>. The result is the exception that leaves
  the function, if any, and the final state; an exception that leaves skips the close.
\<close>

definition transfer :: "(nat \<Rightarrow> bool) \<Rightarrow> db \<Rightarrow> py_error option \<times> db" where
  "transfer fails d0 =
     (case transfer_body fails d0 of
        Inr d \<Rightarrow> (None, sql_close d)
      | Inl (SqliteError, d) \<Rightarrow>
          if fails 6 then (Some SqliteError, d) else (None, sql_close (sql_rollback d))
      | Inl (e, d) \<Rightarrow> (Some e, d))"

definition transaction_with :: "int \<Rightarrow> int \<Rightarrow> (nat \<Rightarrow> bool) \<Rightarrow> db \<Rightarrow> py_error option \<times> db" where
  "transaction_with a b fails d = transfer fails (setup_accounts a b d)"

definition transaction_example :: "(nat \<Rightarrow> bool) \<Rightarrow> db \<Rightarrow> py_error option \<times> db" where
  "transaction_example fails d = transaction_with 1000 500 fails d"

text \<open>The names and balances of a table.\<close>

definition balances :: "account_row list \<Rightarrow> (string \<times> int) list" where
  "balances t = map snd t"

section \<open>Theorems\<close>

text \<open>
  C7. For every task and every string \<open>new_status\<close>, \<open>update_status\<close> returns \<open>True\<close>,
  stores \<open>new_status\<close> in \<open>status\<close> and the current time in \<open>updated_at\<close> when
  \<open>new_status\<close> is one of pending, in\_progress, completed, cancelled; otherwise it
  returns \<open>False\<close> and the task is the same. In both cases title, description, priority,
  due\_date, created\_at and id keep their values.
\<close>

theorem update_status_frame:
  fixes self :: "'t task"
  shows "(if new_status = ''pending'' \<or> new_status = ''in_progress''
             \<or> new_status = ''completed'' \<or> new_status = ''cancelled''
          then fst (update_status now self new_status) = True
             \<and> status (snd (update_status now self new_status)) = new_status
             \<and> updated_at (snd (update_status now self new_status)) = now
          else fst (update_status now self new_status) = False
             \<and> snd (update_status now self new_status) = self)
       \<and> title (snd (update_status now self new_status)) = title self
       \<and> description (snd (update_status now self new_status)) = description self
       \<and> priority (snd (update_status now self new_status)) = priority self
       \<and> due_date (snd (update_status now self new_status)) = due_date self
       \<and> created_at (snd (update_status now self new_status)) = created_at self
       \<and> id (snd (update_status now self new_status)) = id self"
  by (simp add: update_status_def valid_statuses_def)

theorem update_status_frame_witness:
  "update_status (7::nat) (task_init 1 2 ''write report'' '''' ''medium'' None) ''completed''
     = (True, \<lparr>title = ''write report'', description = '''', priority = ''medium'',
               status = ''completed'', due_date = None, created_at = 1, updated_at = 7,
               id = None\<rparr>)
   \<and> update_status (7::nat) (task_init 1 2 ''write report'' '''' ''medium'' None) ''done''
     = (False, task_init 1 2 ''write report'' '''' ''medium'' None)"
  using update_status_frame [of "''completed''" "7::nat" "task_init 1 2 ''write report'' '''' ''medium'' None"]
    update_status_frame [of "''done''" "7::nat" "task_init 1 2 ''write report'' '''' ''medium'' None"]
  by (simp add: update_status_def valid_statuses_def task_init_def)

subsection \<open>Tic-tac-toe\<close>

lemma wf_board_cases: "wf_board b \<Longrightarrow> \<exists>a0 a1 a2 b0 b1 b2 c0 c1 c2. b = [[a0,a1,a2],[b0,b1,b2],[c0,c1,c2]]"
  unfolding wf_board_def
  by (auto simp: length_Suc_conv numeral_3_eq_3)

lemma py_index3 [simp]:
  "py_index [x0, x1, x2] 0 = Inr x0" "py_index [x0, x1, x2] 1 = Inr x1" "py_index [x0, x1, x2] 2 = Inr x2"
  by (simp_all add: py_index_def)

lemma cell3:
  "cell [[a0,a1,a2],[b0,b1,b2],[c0,c1,c2]] 0 0 = Inr a0"
  "cell [[a0,a1,a2],[b0,b1,b2],[c0,c1,c2]] 0 1 = Inr a1"
  "cell [[a0,a1,a2],[b0,b1,b2],[c0,c1,c2]] 0 2 = Inr a2"
  "cell [[a0,a1,a2],[b0,b1,b2],[c0,c1,c2]] 1 0 = Inr b0"
  "cell [[a0,a1,a2],[b0,b1,b2],[c0,c1,c2]] 1 1 = Inr b1"
  "cell [[a0,a1,a2],[b0,b1,b2],[c0,c1,c2]] 1 2 = Inr b2"
  "cell [[a0,a1,a2],[b0,b1,b2],[c0,c1,c2]] 2 0 = Inr c0"
  "cell [[a0,a1,a2],[b0,b1,b2],[c0,c1,c2]] 2 1 = Inr c1"
  "cell [[a0,a1,a2],[b0,b1,b2],[c0,c1,c2]] 2 2 = Inr c2"
  by (simp_all add: cell_def)

lemma chain3_Inr [simp]: "chain3 (Inr x) (Inr y) (Inr z) = Inr (x = y \<and> y = z \<and> z \<noteq> CHR '' '')"
  by (simp add: chain3_def)

lemma first_filled_append:
  "first_filled b (ks @ ls) = (case first_filled b ks of Some m \<Rightarrow> Some m | None \<Rightarrow> first_filled b ls)"
  by (induction ks) (auto split: list.splits)

lemma winning_lines_split: "winning_lines = row_lines @ col_lines @ diag_lines"
  by (simp add: winning_lines_def row_lines_def col_lines_def diag_lines_def)

lemma rows3: "check_rows [[a0,a1,a2],[b0,b1,b2],[c0,c1,c2]] = Inr (first_filled [[a0,a1,a2],[b0,b1,b2],[c0,c1,c2]] row_lines)"
  by (simp add: row_lines_def filled_with_def bool.case_eq_if)

lemma cols3: "check_cols [[a0,a1,a2],[b0,b1,b2],[c0,c1,c2]] [0,1,2] = Inr (first_filled [[a0,a1,a2],[b0,b1,b2],[c0,c1,c2]] col_lines)"
  by (simp add: col_lines_def filled_with_def cell3 bool.case_eq_if)

lemma diags3: "check_diagonals [[a0,a1,a2],[b0,b1,b2],[c0,c1,c2]] = Inr (first_filled [[a0,a1,a2],[b0,b1,b2],[c0,c1,c2]] diag_lines)"
  by (simp add: diag_lines_def filled_with_def cell3 check_diagonals_def bool.case_eq_if)

lemma check_winner_eq_first_filled: "wf_board (board s) \<Longrightarrow> check_winner s = Inr (first_filled (board s) winning_lines)"
  apply (drule wf_board_cases)
  apply (elim exE)
  apply (simp only: check_winner_def winning_lines_split first_filled_append rows3 cols3 diags3)
  apply (simp split: option.splits)
  done


lemma filled_with_head: "filled_with b ((r, c) # l) m \<Longrightarrow> m = b ! r ! c"
  by (simp add: filled_with_def)

lemma first_filled_None:
  "[] \<notin> set ls \<Longrightarrow> first_filled b ls = None \<longleftrightarrow> (\<forall>l\<in>set ls. \<forall>m. \<not> filled_with b l m)"
proof (induction ls)
  case Nil
  then show ?case by simp
next
  case (Cons l ls)
  then obtain r c l' where l: "l = (r, c) # l'" by (cases l) auto
  from Cons have IH: "first_filled b ls = None \<longleftrightarrow> (\<forall>l\<in>set ls. \<forall>m. \<not> filled_with b l m)" by simp
  show ?case
  proof (cases "filled_with b l (b ! r ! c)")
    case True
    then show ?thesis using l by auto
  next
    case False
    then have "\<forall>m. \<not> filled_with b l m" using filled_with_head l by blast
    then show ?thesis using False l IH by simp
  qed
qed

lemma first_filled_Some:
  "first_filled b ls = Some m \<Longrightarrow> \<exists>l\<in>set ls. filled_with b l m"
  by (induction ls) (auto split: list.splits if_splits)

lemma nonempty_lines: "[] \<notin> set winning_lines"
  by (simp add: winning_lines_def)

text \<open>
  C2 (as amended). On every board of three rows of three cells, \<open>check_winner\<close> returns
  the mark of the first line, in the order rows 0 to 2, columns 0 to 2, main diagonal,
  anti-diagonal, whose three cells hold one non-blank mark. It returns \<open>None\<close> exactly
  when none of the eight lines is filled, and for each of the eight lines it returns that
  line's mark whenever no line of the board is filled with a different mark.
\<close>

theorem check_winner_first_filled_line:
  assumes "wf_board (board s)"
  shows "check_winner s = Inr (first_filled (board s) winning_lines)
    \<and> (check_winner s = Inr None \<longleftrightarrow> (\<forall>l\<in>set winning_lines. \<forall>m. \<not> filled_with (board s) l m))
    \<and> (\<forall>l\<in>set winning_lines. \<forall>m. filled_with (board s) l m
          \<and> (\<forall>l'\<in>set winning_lines. \<forall>m'. filled_with (board s) l' m' \<longrightarrow> m' = m)
          \<longrightarrow> check_winner s = Inr (Some m))"
proof -
  let ?b = "board s"
  have eq: "check_winner s = Inr (first_filled ?b winning_lines)"
    using assms by (rule check_winner_eq_first_filled)
  have none: "check_winner s = Inr None \<longleftrightarrow> (\<forall>l\<in>set winning_lines. \<forall>m. \<not> filled_with ?b l m)"
    using first_filled_None [OF nonempty_lines, of ?b] by (simp add: eq)
  have one: "check_winner s = Inr (Some m)"
    if l: "l \<in> set winning_lines" and f: "filled_with ?b l m"
      and u: "\<forall>l'\<in>set winning_lines. \<forall>m'. filled_with ?b l' m' \<longrightarrow> m' = m" for l m
  proof -
    from l f have "first_filled ?b winning_lines \<noteq> None"
      using first_filled_None [OF nonempty_lines, of ?b] by blast
    then obtain m' where m': "first_filled ?b winning_lines = Some m'" by auto
    then obtain l' where "l' \<in> set winning_lines" "filled_with ?b l' m'"
      using first_filled_Some by blast
    with u have "m' = m" by blast
    with m' eq show ?thesis by simp
  qed
  show ?thesis using eq none one by blast
qed

lemma wf_row: "wf_board b \<Longrightarrow> r < 3 \<Longrightarrow> length (b ! r) = 3"
  by (simp add: wf_board_def list_all_length)

lemma make_move_exact:
  assumes wf: "wf_board (board s)" and r: "0 \<le> row" "row < 3" and c: "0 \<le> col" "col < 3"
  shows "make_move s row col =
     (if board s ! nat row ! nat col \<noteq> CHR '' '' then Inr (False, s)
      else Inr (True, s\<lparr>board := (board s)[nat row := (board s ! nat row)[nat col := current_player s]]\<rparr>))"
proof -
  have lb: "length (board s) = 3" using wf by (simp add: wf_board_def)
  have lr: "length (board s ! nat row) = 3" using wf r by (intro wf_row) auto
  have i1: "py_index (board s) row = Inr (board s ! nat row)"
    using r lb by (simp add: py_index_def)
  have i2: "py_index (board s ! nat row) col = Inr (board s ! nat row ! nat col)"
    using c lr by (simp add: py_index_def)
  have s1: "py_store (board s ! nat row) col v = Inr ((board s ! nat row)[nat col := v])" for v
    using c lr by (simp add: py_store_def)
  have s2: "py_store (board s) row v = Inr ((board s)[nat row := v])" for v
    using r lb by (simp add: py_store_def)
  show ?thesis using r c by (simp add: make_move_def cell_def i1 i2 s1 s2)
qed

text \<open>
  C10. On every board of three rows of three cells and for all integers \<open>row\<close>, \<open>col\<close>:
  \<open>make_move\<close> returns \<open>False\<close> and leaves the object as it is when \<open>row\<close> or \<open>col\<close>
  is outside 0..2 or the addressed cell is not blank; otherwise it returns \<open>True\<close>,
  the addressed cell holds the current player's mark, the other eight cells, the current
  player and the game-over flag are unchanged. No call raises \<open>IndexError\<close>.
\<close>

theorem make_move_guarded:
  assumes wf: "wf_board (board s)"
  shows "if row < 0 \<or> 3 \<le> row \<or> col < 0 \<or> 3 \<le> col \<or> board s ! nat row ! nat col \<noteq> CHR '' ''
         then make_move s row col = Inr (False, s)
         else \<exists>s'. make_move s row col = Inr (True, s')
            \<and> board s' ! nat row ! nat col = current_player s
            \<and> (\<forall>r<3. \<forall>c<3. (r, c) \<noteq> (nat row, nat col) \<longrightarrow> board s' ! r ! c = board s ! r ! c)
            \<and> wf_board (board s')
            \<and> current_player s' = current_player s \<and> game_over s' = game_over s"
proof (cases "row < 0 \<or> 3 \<le> row \<or> col < 0 \<or> 3 \<le> col")
  case True
  then show ?thesis by (auto simp: make_move_def)
next
  case False
  then have r: "0 \<le> row" "row < 3" and c: "0 \<le> col" "col < 3" by auto
  note ex = make_move_exact [OF wf r c]
  show ?thesis
  proof (cases "board s ! nat row ! nat col \<noteq> CHR '' ''")
    case True
    then show ?thesis using ex by simp
  next
    case blank: False
    let ?b' = "(board s)[nat row := (board s ! nat row)[nat col := current_player s]]"
    have lb: "length (board s) = 3" using wf by (simp add: wf_board_def)
    have lr: "length (board s ! nat row) = 3" using wf r by (intro wf_row) auto
    have a: "?b' ! nat row ! nat col = current_player s"
      using r c lb lr by simp
    have b: "?b' ! r' ! c' = board s ! r' ! c'" if "(r', c') \<noteq> (nat row, nat col)" for r' c'
      using that r lb by (cases "r' = nat row") (auto simp: nth_list_update)
    have w: "wf_board ?b'"
    proof -
      have "length (?b' ! n) = 3" if "n < 3" for n
        using that wf lr lb by (cases "n = nat row") (simp_all add: wf_row)
      then show ?thesis using lb by (simp add: wf_board_def list_all_length)
    qed
    show ?thesis using False blank ex a b w by simp
  qed
qed


lemma wf_two_lines: "wf_board (board two_lines)"
  by (simp add: two_lines_def wf_board_def)

text \<open>
  C2 as stated fails: after the six moves below the middle row is filled with \<open>O\<close>, yet
  \<open>check_winner\<close> returns \<open>X\<close>, the mark of the top row, which it visits first.
\<close>

theorem check_winner_two_lines_counterexample:
  "play_moves tictactoe_init [(0, 0), (1, 0), (0, 1), (1, 1), (0, 2), (1, 2)] = Inr two_lines
   \<and> wf_board (board two_lines)
   \<and> [(1, 0), (1, 1), (1, 2)] \<in> set winning_lines
   \<and> filled_with (board two_lines) [(1, 0), (1, 1), (1, 2)] CHR ''O''
   \<and> check_winner two_lines = Inr (Some CHR ''X'')
   \<and> check_winner two_lines \<noteq> Inr (Some CHR ''O'')"
proof -
  have "play_moves tictactoe_init [(0, 0), (1, 0), (0, 1), (1, 1), (0, 2), (1, 2)] = Inr two_lines"
    by (simp add: tictactoe_init_def two_lines_def make_move_def cell_def py_index_def
        py_store_def switch_player_def numeral_3_eq_3)
  moreover have "check_winner two_lines = Inr (Some CHR ''X'')"
    by (simp add: two_lines_def check_winner_def chain3_def py_index_def)
  moreover have "filled_with (board two_lines) [(1, 0), (1, 1), (1, 2)] CHR ''O''"
    by (simp add: two_lines_def filled_with_def)
  moreover have "[(1, 0), (1, 1), (1, 2)] \<in> set winning_lines"
    by (simp add: winning_lines_def)
  ultimately show ?thesis using wf_two_lines by simp
qed

theorem check_winner_first_filled_line_witness:
  "wf_board (board column_of_O)
   \<and> filled_with (board column_of_O) [(0, 1), (1, 1), (2, 1)] CHR ''O''
   \<and> check_winner column_of_O = Inr (Some CHR ''O'')
   \<and> wf_board (board tictactoe_init)
   \<and> check_winner tictactoe_init = Inr None"
proof -
  have w1: "wf_board (board column_of_O)"
    by (simp add: column_of_O_def wf_board_def)
  have w2: "wf_board (board tictactoe_init)"
    by (simp add: tictactoe_init_def wf_board_def numeral_3_eq_3)
  have f: "filled_with (board column_of_O) [(0, 1), (1, 1), (2, 1)] CHR ''O''"
    by (simp add: column_of_O_def filled_with_def)
  have "first_filled (board column_of_O) winning_lines = Some CHR ''O''"
    by (simp add: column_of_O_def winning_lines_def filled_with_def)
  moreover have "first_filled (board tictactoe_init) winning_lines = None"
    by (simp add: tictactoe_init_def winning_lines_def filled_with_def numeral_3_eq_3)
  ultimately show ?thesis
    using check_winner_first_filled_line [OF w1] check_winner_first_filled_line [OF w2] w1 w2 f
    by simp
qed

theorem make_move_guarded_witness:
  "wf_board (board tictactoe_init)
   \<and> make_move tictactoe_init 1 2 =
       Inr (True, tictactoe_init\<lparr>board := [[CHR '' '', CHR '' '', CHR '' ''],
                                             [CHR '' '', CHR '' '', CHR ''X''],
                                             [CHR '' '', CHR '' '', CHR '' '']]\<rparr>)
   \<and> make_move tictactoe_init 3 0 = Inr (False, tictactoe_init)
   \<and> make_move tictactoe_init 0 (- 1) = Inr (False, tictactoe_init)
   \<and> make_move column_of_O 1 1 = Inr (False, column_of_O)"
proof -
  have w2: "wf_board (board tictactoe_init)"
    by (simp add: tictactoe_init_def wf_board_def numeral_3_eq_3)
  have w1: "wf_board (board column_of_O)"
    by (simp add: column_of_O_def wf_board_def)
  have "make_move tictactoe_init 1 2 =
       Inr (True, tictactoe_init\<lparr>board := [[CHR '' '', CHR '' '', CHR '' ''],
                                             [CHR '' '', CHR '' '', CHR ''X''],
                                             [CHR '' '', CHR '' '', CHR '' '']]\<rparr>)"
    by (simp add: tictactoe_init_def make_move_def cell_def py_index_def
        py_store_def numeral_3_eq_3)
  then show ?thesis
    using make_move_guarded [OF w2, of 3 0] make_move_guarded [OF w2, of 0 "- 1"]
      make_move_guarded [OF w1, of 1 1] make_move_guarded [OF w2, of 1 2] w2
    by (simp add: column_of_O_def)
qed

subsection \<open>Caesar cipher\<close>

lemma alphabet_facts:
  "length alphabet = 26" "distinct alphabet"
  "list_all (\<lambda>c. py_islower c \<and> \<not> py_isupper c) alphabet"
  by (simp_all add: alphabet_def py_islower_def py_isupper_def)

lemma alphabet_upper_facts:
  "length alphabet_upper = 26" "distinct alphabet_upper"
  "list_all (\<lambda>c. py_isupper c \<and> \<not> py_islower c) alphabet_upper"
  by (simp_all add: alphabet_upper_def py_islower_def py_isupper_def)

lemma str_index_nth:
  "distinct xs \<Longrightarrow> n < length xs \<Longrightarrow> str_index xs (xs ! n) = Inr (int n)"
proof (induction xs arbitrary: n)
  case Nil
  then show ?case by simp
next
  case (Cons x xs)
  show ?case
  proof (cases n)
    case 0
    then show ?thesis by simp
  next
    case (Suc k)
    with Cons.prems have "k < length xs" "x \<noteq> xs ! k" by auto
    with Cons Suc show ?thesis by simp
  qed
qed

lemma str_index_mem:
  "c \<in> set xs \<Longrightarrow> \<exists>n<length xs. str_index xs c = Inr (int n) \<and> xs ! n = c"
proof (induction xs)
  case Nil
  then show ?case by simp
next
  case (Cons x xs)
  show ?case
  proof (cases "x = c")
    case True
    then show ?thesis by auto
  next
    case False
    with Cons obtain n where "n < length xs" "str_index xs c = Inr (int n)" "xs ! n = c" by auto
    with False show ?thesis by (intro exI [of _ "Suc n"]) simp
  qed
qed

lemma str_index_not_mem: "c \<notin> set xs \<Longrightarrow> str_index xs c = Inl ValueError"
  by (induction xs) auto

lemma py_index_in_range:
  "0 \<le> i \<Longrightarrow> i < int (length xs) \<Longrightarrow> py_index xs i = Inr (xs ! nat i)"
  by (simp add: py_index_def)

lemma mod26_range: "0 \<le> (i::int) mod 26" "(i::int) mod 26 < 26"
  by simp_all

lemma lower_not_upper: "c \<in> set alphabet \<Longrightarrow> c \<notin> set alphabet_upper"
  using alphabet_facts(3) alphabet_upper_facts(3) by (auto simp: list_all_iff)

lemma rotate_mem:
  assumes "length abc = 26" "c \<in> set abc"
  shows "rotate abc s c \<in> set abc"
proof -
  from assms obtain n where "str_index abc c = Inr (int n)" using str_index_mem by blast
  then have "rotate abc s c = abc ! nat ((int n + s) mod 26)" by (simp add: rotate_def)
  moreover have "nat ((int n + s) mod 26) < length abc" using assms(1) by simp
  ultimately show ?thesis by simp
qed

lemma rotate_inverse:
  assumes len: "length abc = 26" and d: "distinct abc" and c: "c \<in> set abc"
  shows "rotate abc (- s) (rotate abc s c) = c"
proof -
  from c obtain n where n: "n < length abc" "str_index abc c = Inr (int n)" "abc ! n = c"
    using str_index_mem by blast
  let ?m = "nat ((int n + s) mod 26)"
  have m: "?m < length abc" using len by simp
  have r1: "rotate abc s c = abc ! ?m" using n by (simp add: rotate_def)
  have "str_index abc (abc ! ?m) = Inr (int ?m)" using d m by (rule str_index_nth)
  then have "rotate abc (- s) (abc ! ?m) = abc ! nat ((int ?m - s) mod 26)"
    by (simp add: rotate_def)
  moreover have "(int ?m - s) mod 26 = int n"
  proof -
    have "int ?m = (int n + s) mod 26" by simp
    then have "(int ?m - s) mod 26 = ((int n + s) mod 26 - s) mod 26" by simp
    also have "\<dots> = (int n + s - s) mod 26" by (simp only: mod_diff_left_eq)
    also have "\<dots> = int n" using n(1) len by simp
    finally show ?thesis .
  qed
  ultimately show ?thesis using r1 n by simp
qed

lemma caesar_loop_plain:
  "list_all plain_char t \<Longrightarrow>
     caesar_loop s t acc = Inr (acc @ map (caesar_char s) t)"
proof (induction t arbitrary: acc)
  case Nil
  then show ?case by simp
next
  case (Cons c t)
  then have pc: "plain_char c" and rest: "list_all plain_char t" by simp_all
  note IH = Cons.IH [OF rest]
  consider (lower) "py_islower c" | (upper) "\<not> py_islower c" "py_isupper c"
    | (other) "\<not> py_islower c" "\<not> py_isupper c" by blast
  then show ?case
  proof cases
    case lower
    with pc have mem: "c \<in> set alphabet" by (simp add: plain_char_def)
    then obtain n where n: "str_index alphabet c = Inr (int n)" using str_index_mem by blast
    have "py_index alphabet ((int n + s) mod 26) = Inr (alphabet ! nat ((int n + s) mod 26))"
      by (rule py_index_in_range) (simp_all add: alphabet_facts)
    moreover have "caesar_char s c = alphabet ! nat ((int n + s) mod 26)"
      using mem n by (simp add: caesar_char_def rotate_def)
    ultimately show ?thesis using lower n IH by simp
  next
    case upper
    with pc have mem: "c \<in> set alphabet_upper" by (simp add: plain_char_def)
    then obtain n where n: "str_index alphabet_upper c = Inr (int n)"
      using str_index_mem by blast
    have nl: "c \<notin> set alphabet" using upper(1) alphabet_facts(3) by (auto simp: list_all_iff)
    have "py_index alphabet_upper ((int n + s) mod 26)
        = Inr (alphabet_upper ! nat ((int n + s) mod 26))"
      by (rule py_index_in_range) (simp_all add: alphabet_upper_facts)
    moreover have "caesar_char s c = alphabet_upper ! nat ((int n + s) mod 26)"
      using mem nl n by (simp add: caesar_char_def rotate_def)
    ultimately show ?thesis using upper n IH by simp
  next
    case other
    then have "c \<notin> set alphabet" "c \<notin> set alphabet_upper"
      using alphabet_facts(3) alphabet_upper_facts(3) by (auto simp: list_all_iff)
    then have "caesar_char s c = c" by (simp add: caesar_char_def)
    then show ?thesis using other IH by simp
  qed
qed

lemma letter_plain: "c \<in> set alphabet \<union> set alphabet_upper \<Longrightarrow> plain_char c"
  using alphabet_facts(3) alphabet_upper_facts(3) by (auto simp: plain_char_def list_all_iff)

lemma caesar_char_letter:
  assumes "c \<in> set alphabet \<union> set alphabet_upper"
  shows "caesar_char s c \<in> set alphabet \<union> set alphabet_upper"
    and "caesar_char (- s) (caesar_char s c) = c"
proof -
  show "caesar_char s c \<in> set alphabet \<union> set alphabet_upper"
    using assms rotate_mem [OF alphabet_facts(1)] rotate_mem [OF alphabet_upper_facts(1)]
    by (auto simp: caesar_char_def)
  show "caesar_char (- s) (caesar_char s c) = c"
  proof (cases "c \<in> set alphabet")
    case True
    then have "rotate alphabet s c \<in> set alphabet" by (rule rotate_mem [OF alphabet_facts(1)])
    then show ?thesis
      using True rotate_inverse [OF alphabet_facts(1,2) True] by (simp add: caesar_char_def)
  next
    case False
    with assms have u: "c \<in> set alphabet_upper" by simp
    then have r: "rotate alphabet_upper s c \<in> set alphabet_upper"
      by (rule rotate_mem [OF alphabet_upper_facts(1)])
    then have "rotate alphabet_upper s c \<notin> set alphabet"
      using lower_not_upper by blast
    then show ?thesis
      using False u r rotate_inverse [OF alphabet_upper_facts(1,2) u]
      by (simp add: caesar_char_def)
  qed
qed

text \<open>
  C1. For every string \<open>x\<close> of ASCII letters and every shift \<open>k\<close> in 0..25, encrypting
  \<open>x\<close> with shift \<open>k\<close> returns a string, and decrypting that string with shift \<open>k\<close>
  returns \<open>x\<close>.
\<close>

theorem caesar_cipher_roundtrip:
  assumes "set x \<subseteq> set alphabet \<union> set alphabet_upper" and "0 \<le> k" and "k \<le> 25"
  shows "\<exists>y. caesar_cipher x k True = Inr y \<and> caesar_cipher y k False = Inr x"
proof -
  let ?y = "map (caesar_char k) x"
  have px: "list_all plain_char x"
    using assms(1) letter_plain by (auto simp: list_all_iff)
  have enc: "caesar_cipher x k True = Inr ?y"
    using caesar_loop_plain [OF px, of k "[]"] by (simp add: caesar_cipher_def)
  have "list_all plain_char ?y"
    using assms(1) caesar_char_letter(1) letter_plain by (auto simp: list_all_iff)
  then have "caesar_cipher ?y k False = Inr (map (caesar_char (- k)) ?y)"
    using caesar_loop_plain [of ?y "- k" "[]"] by (simp add: caesar_cipher_def)
  moreover have "map (caesar_char (- k)) ?y = x"
    using assms(1) caesar_char_letter(2) by (simp add: map_idI subset_iff)
  ultimately show ?thesis using enc by simp
qed

theorem caesar_cipher_roundtrip_witness:
  "set ''HelloWorld'' \<subseteq> set alphabet \<union> set alphabet_upper \<and> (0::int) \<le> 3 \<and> (3::int) \<le> 25
   \<and> caesar_cipher ''HelloWorld'' 3 True = Inr ''KhoorZruog''
   \<and> caesar_cipher ''KhoorZruog'' 3 False = Inr ''HelloWorld''"
proof -
  have h: "set ''HelloWorld'' \<subseteq> set alphabet \<union> set alphabet_upper"
    by (simp add: alphabet_def alphabet_upper_def)
  have e: "caesar_cipher ''HelloWorld'' 3 True = Inr ''KhoorZruog''"
    by (simp add: caesar_cipher_def py_islower_def py_isupper_def alphabet_def
        alphabet_upper_def py_index_def)
  show ?thesis
    using caesar_cipher_roundtrip [OF h, of 3] h e by simp
qed

lemma caesar_char_positions:
  "p < 26 \<Longrightarrow> caesar_char s (alphabet ! p) = alphabet ! nat ((int p + s) mod 26)"
  "p < 26 \<Longrightarrow> caesar_char s (alphabet_upper ! p) = alphabet_upper ! nat ((int p + s) mod 26)"
  "c \<notin> set alphabet \<union> set alphabet_upper \<Longrightarrow> caesar_char s c = c"
proof -
  show "caesar_char s (alphabet ! p) = alphabet ! nat ((int p + s) mod 26)" if "p < 26"
    using that str_index_nth [OF alphabet_facts(2), of p]
    by (simp add: caesar_char_def rotate_def alphabet_facts(1))
  show "caesar_char s (alphabet_upper ! p) = alphabet_upper ! nat ((int p + s) mod 26)"
    if "p < 26"
  proof -
    have "alphabet_upper ! p \<in> set alphabet_upper"
      using that by (simp add: alphabet_upper_facts(1))
    then have "alphabet_upper ! p \<notin> set alphabet" using lower_not_upper by blast
    then show ?thesis
      using that str_index_nth [OF alphabet_upper_facts(2), of p]
      by (simp add: caesar_char_def rotate_def alphabet_upper_facts(1))
  qed
  show "caesar_char s c = c" if "c \<notin> set alphabet \<union> set alphabet_upper"
    using that by (simp add: caesar_char_def)
qed

lemma caesar_cipher_plain_text:
  "list_all plain_char t \<Longrightarrow> caesar_cipher t s True = Inr (map (caesar_char s) t)"
  using caesar_loop_plain [of t s "[]"] by (simp add: caesar_cipher_def)

text \<open>
  C3. The claim holds on every string whose cased characters are ASCII letters
  (\<open>caesar_cipher_plain_text\<close>, \<open>caesar_char_positions\<close>), but not on every string:
  U+00E9 is lowercase for \<open>islower()\<close> and is not in \<open>alphabet\<close>, so
  \<open>alphabet.index\<close> raises \<open>ValueError\<close> and no string is returned, neither for the
  one-character text nor for a text that also holds the letter \<open>a\<close>.
\<close>

theorem caesar_cipher_non_ascii_letter:
  "py_islower (CHR 0xE9) \<and> CHR 0xE9 \<notin> set alphabet
   \<and> caesar_cipher [CHR 0xE9] 1 True = Inl ValueError
   \<and> caesar_cipher [CHR ''a'', CHR 0xE9] 1 True = Inl ValueError"
  by (simp add: caesar_cipher_def py_islower_def alphabet_def py_index_def)

subsection \<open>Hangman\<close>

lemma make_guess_frame:
  "word (snd (make_guess s g)) = word s"
  "words (snd (make_guess s g)) = words s"
  "max_wrong_guesses (snd (make_guess s g)) = max_wrong_guesses s"
  "guessed_letters (snd (make_guess s g)) = insert (py_lower g) (guessed_letters s)"
  by (auto simp: make_guess_def Let_def)

lemma make_guess_counter:
  "wrong_guesses (snd (make_guess s g)) =
     (if py_lower g \<notin> guessed_letters s \<and> \<not> str_contains (word s) (py_lower g)
      then wrong_guesses s + 1 else wrong_guesses s)"
  by (simp add: make_guess_def Let_def)

lemma wrong_letters_step:
  "wrong_letters (snd (make_guess s g)) =
     (if \<not> str_contains (word s) (py_lower g) then insert (py_lower g) (wrong_letters s)
      else wrong_letters s)"
  by (auto simp: wrong_letters_def make_guess_frame)

lemma hangman_inv_step:
  assumes "hangman_inv s"
  shows "hangman_inv (snd (make_guess s g))"
proof -
  have fin: "finite (wrong_letters s)"
    using assms by (simp add: hangman_inv_def wrong_letters_def)
  have mem: "py_lower g \<in> wrong_letters s \<longleftrightarrow>
      py_lower g \<in> guessed_letters s \<and> \<not> str_contains (word s) (py_lower g)"
    by (simp add: wrong_letters_def)
  show ?thesis
    using assms fin mem
    by (auto simp: hangman_inv_def make_guess_frame make_guess_counter wrong_letters_step
        insert_absorb)
qed

lemma make_guesses_inv:
  "hangman_inv s \<Longrightarrow> hangman_inv (make_guesses s gs)"
  unfolding make_guesses_def
  by (induction gs arbitrary: s) (simp_all add: hangman_inv_step)

lemma make_guesses_frame:
  "word (make_guesses s gs) = word s"
  "max_wrong_guesses (make_guesses s gs) = max_wrong_guesses s"
  "guessed_letters (make_guesses s gs) = guessed_letters s \<union> py_lower ` set gs"
  unfolding make_guesses_def
  by (induction gs arbitrary: s) (auto simp: make_guess_frame)


lemma make_guesses_words: "words (make_guesses s gs) = words s"
  unfolding make_guesses_def
  by (induction gs arbitrary: s) (auto simp: make_guess_frame)

text \<open>
  C4. Take any game object, new or left over from earlier games. After
  \<open>select_random_word\<close> and any sequence of \<open>make_guess\<close> calls, the word is the
  selected one, the guessed letters are the lowercased guesses of this sequence, and the
  counter \<open>wrong_guesses\<close> is the number of distinct guessed letters that do not occur
  in the word; a further guess raises it by exactly 1 when the letter is new and not in
  the word, and leaves it as it is when the letter was guessed before or is in the word.
  The word list and the threshold \<open>max_wrong_guesses\<close> are those of the object before,
  \<open>is_game_lost\<close> holds exactly when the counter has reached the threshold, and the
  threshold that \<open>__init__\<close> sets is 6: on every object whose threshold is 6,
  \<open>is_game_lost\<close> holds exactly when the counter is at least 6.
\<close>

theorem hangman_wrong_guess_counter:
  fixes self :: hangman and r :: nat and gs :: "string list"
  assumes "r < length (words self)"
  defines "s \<equiv> make_guesses (select_random_word r self) gs"
  shows "word s = py_lower (words self ! r)
    \<and> guessed_letters s = py_lower ` set gs
    \<and> wrong_guesses s = int (card {g \<in> py_lower ` set gs. \<not> str_contains (word s) g})
    \<and> (\<forall>g. wrong_guesses (snd (make_guess s g)) =
          (if py_lower g \<notin> guessed_letters s \<and> \<not> str_contains (word s) (py_lower g)
           then wrong_guesses s + 1 else wrong_guesses s))
    \<and> words s = words self
    \<and> max_wrong_guesses s = max_wrong_guesses self
    \<and> (is_game_lost s \<longleftrightarrow> wrong_guesses s \<ge> max_wrong_guesses s)
    \<and> max_wrong_guesses hangman_init = 6
    \<and> (max_wrong_guesses self = 6 \<longrightarrow> (is_game_lost s \<longleftrightarrow> wrong_guesses s \<ge> 6))"
proof -
  let ?s0 = "select_random_word r self"
  have "hangman_inv ?s0"
    by (simp add: hangman_inv_def select_random_word_def wrong_letters_def)
  then have inv: "hangman_inv s" unfolding s_def by (rule make_guesses_inv)
  have w: "word s = py_lower (words self ! r)"
    unfolding s_def by (simp add: make_guesses_frame select_random_word_def)
  have g: "guessed_letters s = py_lower ` set gs"
    unfolding s_def by (simp add: make_guesses_frame select_random_word_def)
  have ws: "words s = words self"
    unfolding s_def by (simp add: make_guesses_words select_random_word_def)
  have m: "max_wrong_guesses s = max_wrong_guesses self"
    unfolding s_def by (simp add: make_guesses_frame select_random_word_def)
  have i: "max_wrong_guesses hangman_init = 6" by (simp add: hangman_init_def)
  have c: "wrong_guesses s = int (card {g \<in> py_lower ` set gs. \<not> str_contains (word s) g})"
    using inv g by (simp add: hangman_inv_def wrong_letters_def)
  show ?thesis using w g c ws m i by (simp add: make_guess_counter is_game_lost_def)
qed

text \<open>
  The witness starts a second game on an object that an earlier game has left with one
  wrong guess.
\<close>

theorem hangman_wrong_guess_counter_witness:
  "guessed_letters (make_guesses (select_random_word 0 hangman_init) [''z'']) = {''z''}
   \<and> wrong_guesses (make_guesses (select_random_word 0 hangman_init) [''z'']) = 1
   \<and> (4::nat) < length (words (make_guesses (select_random_word 0 hangman_init) [''z'']))
   \<and> max_wrong_guesses (make_guesses (select_random_word 0 hangman_init) [''z'']) = 6
   \<and> word (make_guesses
        (select_random_word 4 (make_guesses (select_random_word 0 hangman_init) [''z'']))
        [''f'', ''z'', ''Z'', ''q'', ''n'', ''f'']) = ''function''
   \<and> guessed_letters (make_guesses
        (select_random_word 4 (make_guesses (select_random_word 0 hangman_init) [''z'']))
        [''f'', ''z'', ''Z'', ''q'', ''n'', ''f'']) = {''f'', ''z'', ''q'', ''n''}
   \<and> wrong_guesses (make_guesses
        (select_random_word 4 (make_guesses (select_random_word 0 hangman_init) [''z'']))
        [''f'', ''z'', ''Z'', ''q'', ''n'', ''f'']) = 2
   \<and> \<not> is_game_lost (make_guesses
        (select_random_word 4 (make_guesses (select_random_word 0 hangman_init) [''z'']))
        [''f'', ''z'', ''Z'', ''q'', ''n'', ''f''])
   \<and> wrong_guesses (make_guesses
        (select_random_word 4 (make_guesses (select_random_word 0 hangman_init) [''z'']))
        [''z'', ''q'', ''x'', ''w'', ''v'', ''y'']) = 6
   \<and> is_game_lost (make_guesses
        (select_random_word 4 (make_guesses (select_random_word 0 hangman_init) [''z'']))
        [''z'', ''q'', ''x'', ''w'', ''v'', ''y''])"
proof -
  let ?old = "make_guesses (select_random_word 0 hangman_init) [''z'']"
  let ?gs1 = "[''f'', ''z'', ''Z'', ''q'', ''n'', ''f'']"
  let ?gs2 = "[''z'', ''q'', ''x'', ''w'', ''v'', ''y'']"
  let ?s1 = "make_guesses (select_random_word 4 ?old) ?gs1"
  let ?s2 = "make_guesses (select_random_word 4 ?old) ?gs2"
  have lo: "py_lower ''f'' = ''f''" "py_lower ''z'' = ''z''" "py_lower ''Z'' = ''z''"
    "py_lower ''q'' = ''q''" "py_lower ''n'' = ''n''" "py_lower ''x'' = ''x''"
    "py_lower ''w'' = ''w''" "py_lower ''v'' = ''v''" "py_lower ''y'' = ''y''"
    "py_lower ''python'' = ''python''" "py_lower ''function'' = ''function''"
    by code_simp+
  have ws: "words ?old = words hangman_init"
    by (simp add: make_guesses_words select_random_word_def)
  have wl: "length (words hangman_init) = 15" "words hangman_init ! 4 = ''function''"
    by (simp_all add: hangman_init_def)
  have h1: "(4::nat) < length (words ?old)" by (simp add: ws wl)
  have h2: "max_wrong_guesses ?old = 6"
    by (simp add: make_guesses_frame select_random_word_def hangman_init_def)
  have o1: "guessed_letters ?old = {''z''}"
    by (simp add: make_guesses_frame select_random_word_def lo)
  have o2: "wrong_guesses ?old = 1"
    by (simp add: make_guesses_def make_guess_def select_random_word_def hangman_init_def lo)
  have w4: "py_lower (words ?old ! 4) = ''function''"
    by (simp only: ws wl lo)
  have i1: "py_lower ` set ?gs1 = {''f'', ''z'', ''q'', ''n''}"
    by (auto simp: lo)
  have i2: "py_lower ` set ?gs2 = {''z'', ''q'', ''x'', ''w'', ''v'', ''y''}"
    by (auto simp: lo)
  have c1: "{g \<in> {''f'', ''z'', ''q'', ''n''}. \<not> str_contains ''function'' g} = {''z'', ''q''}"
    by auto
  have c2: "{g \<in> {''z'', ''q'', ''x'', ''w'', ''v'', ''y''}. \<not> str_contains ''function'' g}
      = {''z'', ''q'', ''x'', ''w'', ''v'', ''y''}"
    by auto
  note t1 = hangman_wrong_guess_counter [OF h1, where gs = ?gs1]
  note t2 = hangman_wrong_guess_counter [OF h1, where gs = ?gs2]
  from t1 have w1: "word ?s1 = ''function''" by (simp only: w4)
  from t2 have w2: "word ?s2 = ''function''" by (simp only: w4)
  from t1 have g1: "guessed_letters ?s1 = {''f'', ''z'', ''q'', ''n''}"
    by (simp only: i1)
  from t1 have "wrong_guesses ?s1
      = int (card {g \<in> py_lower ` set ?gs1. \<not> str_contains (word ?s1) g})"
    by (elim conjE)
  then have n1: "wrong_guesses ?s1 = 2" by (simp only: i1 w1 c1) simp
  from t2 have "wrong_guesses ?s2
      = int (card {g \<in> py_lower ` set ?gs2. \<not> str_contains (word ?s2) g})"
    by (elim conjE)
  then have n2: "wrong_guesses ?s2 = 6" by (simp only: i2 w2 c2) simp
  from t1 h2 have l1: "is_game_lost ?s1 \<longleftrightarrow> wrong_guesses ?s1 \<ge> 6" by blast
  from t2 h2 have l2: "is_game_lost ?s2 \<longleftrightarrow> wrong_guesses ?s2 \<ge> 6" by blast
  show ?thesis using h1 h2 o1 o2 w1 g1 n1 n2 l1 l2 by simp
qed

subsection \<open>Notes\<close>

text \<open>
  C8. For every title, content and category, \<open>create_note\<close> appends exactly one note to
  the list; the note has exactly the six fields id, title, content, category,
  created\_at, updated\_at, in this order; its id is the length of the list before the
  call plus 1; and the category is added to the set of categories.
\<close>

theorem create_note_appends:
  "\<exists>n. notes (create_note now1 now2 self ttl content category) = notes self @ [n]
     \<and> map fst n = [''id'', ''title'', ''content'', ''category'', ''created_at'', ''updated_at'']
     \<and> map_of n ''id'' = Some (JInt (int (length (notes self)) + 1))
     \<and> map_of n ''title'' = Some (JStr ttl)
     \<and> map_of n ''content'' = Some (JStr content)
     \<and> map_of n ''category'' = Some (JStr category)
     \<and> map_of n ''created_at'' = Some (JStr now1)
     \<and> map_of n ''updated_at'' = Some (JStr now2)
     \<and> categories (create_note now1 now2 self ttl content category)
         = insert category (categories self)
     \<and> filename (create_note now1 now2 self ttl content category) = filename self"
  by (simp add: create_note_def)

text \<open>
  C9. Note ids are not unique: after creating A and B, deleting note 1 and creating C,
  the list holds the two different notes B and C, both with id 2. \<open>edit_note\<close> with id 2
  then edits B and leaves C as it is, and \<open>delete_note\<close> with id 2 removes B and keeps C.
\<close>

theorem note_ids_not_unique:
  "duplicate_id_app = Inr \<lparr>notes = [note_b, note_c], categories = {''General'', ''Work''},
                            filename = ''notes.json''\<rparr>
   \<and> note_b \<noteq> note_c
   \<and> dict_get note_b ''id'' = Inr (JInt 2) \<and> dict_get note_c ''id'' = Inr (JInt 2)
   \<and> edit_note ''t7'' \<lparr>notes = [note_b, note_c], categories = {''General'', ''Work''},
                         filename = ''notes.json''\<rparr> 2 (Some ''B2'') None None
       = Inr (True, \<lparr>notes = [AList.update ''updated_at'' (JStr ''t7'')
                                 (AList.update ''title'' (JStr ''B2'') note_b), note_c],
                      categories = {''General'', ''Work''}, filename = ''notes.json''\<rparr>)
   \<and> delete_note \<lparr>notes = [note_b, note_c], categories = {''General'', ''Work''},
                    filename = ''notes.json''\<rparr> 2
       = Inr (True, \<lparr>notes = [note_c], categories = {''General'', ''Work''},
                      filename = ''notes.json''\<rparr>)"
  by (simp add: duplicate_id_app_def create_note_def note_app_init_def delete_note_def
      edit_note_def dict_get_def note_b_def note_c_def edit_fields_def truthy_def
      insert_commute)

subsection \<open>safe\_divide\<close>

lemma pow2_add: "(2::rat) powi (m + n) = 2 powi m * 2 powi n"
  by (rule power_int_add) simp

lemma ilog2_bounds:
  assumes "0 < q"
  shows "2 powi (ilog2 q) \<le> q" and "q < 2 powi (ilog2 q + 1)"
proof -
  obtain n d where nd: "quotient_of q = (n, d)" by (cases "quotient_of q")
  then have d: "0 < d" and q: "q = of_int n / of_int d"
    by (rule quotient_of_denom_pos, rule quotient_of_div)
  have n: "0 < n" using assms d q by (simp add: zero_less_divide_iff)
  define fn where "fn = floorlog 2 (nat n)"
  define fd where "fd = floorlog 2 (nat d)"
  define e0 where "e0 = int fn - int fd"
  have bn: "2 ^ (fn - 1) \<le> nat n" "nat n < 2 ^ fn"
    using floorlog_bounds [of "nat n" 2] n by (simp_all add: fn_def)
  have bd: "2 ^ (fd - 1) \<le> nat d" "nat d < 2 ^ fd"
    using floorlog_bounds [of "nat d" 2] d by (simp_all add: fd_def)
  have fn1: "1 \<le> fn" using n by (simp add: fn_def floorlog_def)
  have fd1: "1 \<le> fd" using d by (simp add: fd_def floorlog_def)
  have rn: "(2::rat) ^ (fn - 1) \<le> of_int n" "of_int n < (2::rat) ^ fn"
  proof -
    have "of_nat (2 ^ (fn - 1)) \<le> (of_nat (nat n) :: rat)" using bn(1) by (rule of_nat_mono)
    then show "(2::rat) ^ (fn - 1) \<le> of_int n" using n by simp
    have "(of_nat (nat n) :: rat) < of_nat (2 ^ fn)" using bn(2) by (simp only: of_nat_less_iff)
    then show "of_int n < (2::rat) ^ fn" using n by simp
  qed
  have rd: "(2::rat) ^ (fd - 1) \<le> of_int d" "of_int d < (2::rat) ^ fd"
  proof -
    have "of_nat (2 ^ (fd - 1)) \<le> (of_nat (nat d) :: rat)" using bd(1) by (rule of_nat_mono)
    then show "(2::rat) ^ (fd - 1) \<le> of_int d" using d by simp
    have "(of_nat (nat d) :: rat) < of_nat (2 ^ fd)" using bd(2) by (simp only: of_nat_less_iff)
    then show "of_int d < (2::rat) ^ fd" using d by simp
  qed
  have dpos: "(0::rat) < of_int d" using d by simp
  have up: "q < 2 powi (e0 + 1)"
  proof -
    have "q * of_int d = of_int n" using q dpos by simp
    also have "\<dots> < 2 ^ fn" by (rule rn(2))
    also have "\<dots> = 2 powi (e0 + 1) * 2 ^ (fd - 1)"
    proof -
      have "int fn = (e0 + 1) + int (fd - 1)" using fd1 by (simp add: e0_def)
      then have "(2::rat) powi (int fn) = 2 powi ((e0 + 1) + int (fd - 1))" by simp
      also have "\<dots> = 2 powi (e0 + 1) * 2 powi (int (fd - 1))" by (rule pow2_add)
      finally show ?thesis by simp
    qed
    also have "\<dots> \<le> 2 powi (e0 + 1) * of_int d"
      using rd(1) by (intro mult_left_mono) simp_all
    finally show ?thesis using dpos by simp
  qed
  have lo: "2 powi (e0 - 1) < q"
  proof -
    have "2 powi (e0 - 1) * of_int d < 2 powi (e0 - 1) * (2::rat) ^ fd"
      using rd(2) by (intro mult_strict_left_mono) simp_all
    also have "\<dots> = 2 ^ (fn - 1)"
    proof -
      have "int (fn - 1) = (e0 - 1) + int fd" using fn1 by (simp add: e0_def)
      then have "(2::rat) powi (int (fn - 1)) = 2 powi ((e0 - 1) + int fd)" by simp
      also have "\<dots> = 2 powi (e0 - 1) * 2 powi (int fd)" by (rule pow2_add)
      finally show ?thesis by simp
    qed
    also have "\<dots> \<le> of_int n" by (rule rn(1))
    also have "\<dots> = q * of_int d" using q dpos by simp
    finally show ?thesis using dpos by simp
  qed
  have il: "ilog2 q = (if 2 powi e0 \<le> q then e0 else e0 - 1)"
    by (simp add: ilog2_def nd e0_def fn_def fd_def)
  show "2 powi (ilog2 q) \<le> q" using il lo by (simp add: less_imp_le)
  show "q < 2 powi (ilog2 q + 1)" using il up by (auto simp: not_le)
qed

lemma round_half_even_bounds:
  "of_int (round_half_even x) \<le> x + 1 / 2"
  "of_int k \<le> x \<Longrightarrow> k \<le> round_half_even x"
proof -
  have f: "of_int \<lfloor>x\<rfloor> \<le> x" by simp
  then have f1: "of_int \<lfloor>x\<rfloor> \<le> x + 1 / 2" by linarith
  have f2: "of_int (\<lfloor>x\<rfloor> + 1) \<le> x + 1 / 2" if "\<not> x - of_int \<lfloor>x\<rfloor> < 1 / 2"
    using that by simp
  show "of_int (round_half_even x) \<le> x + 1 / 2"
    unfolding round_half_even_def Let_def using f1 f2 by (simp only: split: if_split) blast
  show "k \<le> round_half_even x" if "of_int k \<le> x"
  proof -
    from that have "k \<le> \<lfloor>x\<rfloor>" by (simp add: le_floor_iff)
    then show ?thesis by (auto simp: round_half_even_def Let_def)
  qed
qed

lemma round_double_pos:
  assumes "0 < a"
  shows "round_double a
     = of_int (round_half_even (a / 2 powi (max (ilog2 a - 52) (- 1074))))
        * 2 powi (max (ilog2 a - 52) (- 1074))"
  using assms by (simp add: round_double_def Let_def)

lemma round_double_abs: "\<bar>round_double q\<bar> = round_double \<bar>q\<bar>"
proof (cases "q = 0")
  case True
  then show ?thesis by (simp add: round_double_def)
next
  case False
  let ?p = "max (ilog2 \<bar>q\<bar> - 52) (- 1074)"
  have "(0::rat) \<le> \<bar>q\<bar> / 2 powi ?p" by simp
  then have "of_int 0 \<le> \<bar>q\<bar> / 2 powi ?p" by simp
  then have m: "0 \<le> round_half_even (\<bar>q\<bar> / 2 powi ?p)" by (rule round_half_even_bounds(2))
  have "\<bar>round_double q\<bar> = \<bar>sgn q\<bar> * \<bar>of_int (round_half_even (\<bar>q\<bar> / 2 powi ?p))\<bar> * \<bar>2 powi ?p\<bar>"
    using False by (simp add: round_double_def Let_def abs_mult)
  also have "\<dots> = of_int (round_half_even (\<bar>q\<bar> / 2 powi ?p)) * 2 powi ?p"
    using False m by simp
  also have "\<dots> = round_double \<bar>q\<bar>"
    using False by (simp add: round_double_def Let_def)
  finally show ?thesis .
qed

lemma round_double_below:
  assumes "0 < a" and "a < 2 ^ 1023"
  shows "round_double a < 2 ^ 1024"
proof -
  define p where "p = max (ilog2 a - 52) (- 1074)"
  define m where "m = round_half_even (a / 2 powi p)"
  have pp: "(0::rat) < 2 powi p" by simp
  have "(2::rat) powi p \<le> max a 1"
  proof (cases "ilog2 a - 52 \<ge> - 1074")
    case True
    then have "p = ilog2 a - 52" by (simp add: p_def)
    then have "(2::rat) powi p \<le> 2 powi (ilog2 a)" by (intro power_int_increasing) simp_all
    also have "\<dots> \<le> a" using assms(1) by (rule ilog2_bounds(1))
    finally show ?thesis by simp
  next
    case False
    then have "p = - 1074" by (simp add: p_def)
    then have "(2::rat) powi p \<le> 2 powi 0" by (intro power_int_increasing) simp_all
    then show ?thesis by simp
  qed
  then have p2: "(2::rat) powi p < 2 ^ 1023" using assms(2) by simp
  have "of_int m \<le> a / 2 powi p + 1 / 2"
    unfolding m_def by (rule round_half_even_bounds(1))
  then have "of_int m * 2 powi p \<le> (a / 2 powi p + 1 / 2) * 2 powi p"
    using pp by (intro mult_right_mono) simp_all
  also have "\<dots> = a + 2 powi p / 2" using pp by (simp add: field_simps)
  also have "\<dots> < 2 ^ 1023 + 2 ^ 1023 / 2" using assms(2) p2 by simp
  also have "\<dots> < 2 ^ 1024" by simp
  finally show ?thesis using assms(1) by (simp add: round_double_pos p_def m_def)
qed

lemma round_double_above:
  assumes "2 ^ 1024 \<le> a"
  shows "2 ^ 1024 \<le> round_double a"
proof -
  have a: "0 < a" using assms by (rule less_le_trans [rotated]) simp
  define e where "e = ilog2 a"
  define p where "p = max (e - 52) (- 1074)"
  define m where "m = round_half_even (a / 2 powi p)"
  have "(2::rat) powi 1024 \<le> a" using assms by simp
  also have "a < 2 powi (e + 1)" unfolding e_def using a by (rule ilog2_bounds(2))
  finally have lt: "(2::rat) powi 1024 < 2 powi (e + 1)" .
  have e: "1024 \<le> e"
  proof (rule ccontr)
    assume "\<not> 1024 \<le> e"
    then have "e + 1 \<le> 1024" by simp
    then have "(2::rat) powi (e + 1) \<le> 2 powi 1024" by (intro power_int_increasing) simp_all
    then show False using lt leD by blast
  qed
  then have p: "p = e - 52" by (simp add: p_def)
  have pp: "(0::rat) < 2 powi p" by simp
  have "(2::rat) powi 52 * 2 powi p = 2 powi e"
    using pow2_add [of 52 p] by (simp add: p)
  moreover have "2 powi e \<le> a" unfolding e_def using a by (rule ilog2_bounds(1))
  ultimately have "(2::rat) powi 52 \<le> a / 2 powi p" using pp by (simp add: pos_le_divide_eq)
  then have "of_int (2 ^ 52) \<le> a / 2 powi p" by simp
  then have "2 ^ 52 \<le> m" unfolding m_def by (rule round_half_even_bounds(2))
  then have "(of_int (2 ^ 52) :: rat) \<le> of_int m" by (simp only: of_int_le_iff)
  then have c3: "(of_int (2 ^ 52) :: rat) * 2 powi p \<le> of_int m * 2 powi p"
    using pp by (intro mult_right_mono) simp_all
  have c2: "(2::rat) powi e = of_int (2 ^ 52) * 2 powi p"
    using pow2_add [of 52 p] by (simp add: p)
  have "(2::rat) powi 1024 \<le> 2 powi e" using e by (intro power_int_increasing) simp_all
  also note c2
  also note c3
  finally have "(2::rat) powi 1024 \<le> of_int m * 2 powi p" .
  then show ?thesis using a by (simp add: round_double_pos p_def m_def e_def)
qed


lemma round_double_ge_pow2:
  assumes "- 1022 \<le> k" and "2 powi k \<le> a"
  shows "2 powi k \<le> round_double a"
proof -
  have "(0::rat) < 2 powi k" by simp
  then have a: "0 < a" using assms(2) by (rule less_le_trans)
  define e where "e = ilog2 a"
  define p where "p = max (e - 52) (- 1074)"
  define m where "m = round_half_even (a / 2 powi p)"
  note assms(2)
  also have "a < 2 powi (e + 1)" unfolding e_def using a by (rule ilog2_bounds(2))
  finally have lt: "(2::rat) powi k < 2 powi (e + 1)" .
  have e: "k \<le> e"
  proof (rule ccontr)
    assume "\<not> k \<le> e"
    then have "e + 1 \<le> k" by simp
    then have "(2::rat) powi (e + 1) \<le> 2 powi k" by (intro power_int_increasing) simp_all
    then show False using lt leD by blast
  qed
  then have p: "p = e - 52" using assms(1) by (simp add: p_def)
  have pp: "(0::rat) < 2 powi p" by simp
  have "(2::rat) powi 52 * 2 powi p = 2 powi e"
    using pow2_add [of 52 p] by (simp add: p)
  moreover have "2 powi e \<le> a" unfolding e_def using a by (rule ilog2_bounds(1))
  ultimately have "(2::rat) powi 52 \<le> a / 2 powi p" using pp by (simp add: pos_le_divide_eq)
  then have "of_int (2 ^ 52) \<le> a / 2 powi p" by simp
  then have "2 ^ 52 \<le> m" unfolding m_def by (rule round_half_even_bounds(2))
  then have "(of_int (2 ^ 52) :: rat) \<le> of_int m" by (simp only: of_int_le_iff)
  then have c3: "(of_int (2 ^ 52) :: rat) * 2 powi p \<le> of_int m * 2 powi p"
    using pp by (intro mult_right_mono) simp_all
  have c2: "(2::rat) powi e = of_int (2 ^ 52) * 2 powi p"
    using pow2_add [of 52 p] by (simp add: p)
  have "(2::rat) powi k \<le> 2 powi e" using e by (intro power_int_increasing) simp_all
  also note c2
  also note c3
  finally have "(2::rat) powi k \<le> of_int m * 2 powi p" .
  then show ?thesis using a by (simp only: round_double_pos p_def m_def e_def)
qed

lemma round_double_ge_one: "1 \<le> a \<Longrightarrow> 1 \<le> round_double a"
  using round_double_ge_pow2 [of 0 a] by simp

lemma round_double_zero: "round_double 0 = 0"
  by (simp add: round_double_def)

lemma int_to_float_cases:
  "int_to_float n = Inl OverflowError
   \<or> (\<exists>q. int_to_float n = Inr (Finite q) \<and> (q = 0 \<longleftrightarrow> n = 0))"
proof (cases "n = 0")
  case True
  then show ?thesis by (simp add: int_to_float_def round_double_zero)
next
  case False
  then have "1 \<le> \<bar>n\<bar>" by simp
  then have "(of_int 1 :: rat) \<le> of_int \<bar>n\<bar>" by (simp only: of_int_le_iff)
  then have "(1::rat) \<le> of_int \<bar>n\<bar>" by simp
  then have "1 \<le> round_double (of_int \<bar>n\<bar>)" by (rule round_double_ge_one)
  then have "round_double (of_int \<bar>n\<bar>) \<noteq> 0" by simp
  then show ?thesis using False by (auto simp: int_to_float_def Let_def)
qed

lemma int_to_float_small:
  assumes "\<bar>n\<bar> < 2 ^ 1023"
  shows "int_to_float n \<noteq> Inl OverflowError"
proof -
  have "(of_int \<bar>n\<bar> :: rat) < of_int (2 ^ 1023)" using assms by (simp only: of_int_less_iff)
  then have small: "(of_int \<bar>n\<bar> :: rat) < 2 ^ 1023" by simp
  have "round_double (of_int \<bar>n\<bar>) < 2 ^ 1024"
  proof (cases "n = 0")
    case True
    then show ?thesis by (simp add: round_double_zero)
  next
    case False
    then have "(0::rat) < of_int \<bar>n\<bar>" by simp
    then show ?thesis using small by (rule round_double_below)
  qed
  then have "\<not> 2 ^ 1024 \<le> round_double (of_int \<bar>n\<bar>)" by (simp only: not_le)
  then show ?thesis by (simp add: int_to_float_def Let_def)
qed

lemma int_to_float_large:
  assumes "2 ^ 1024 \<le> \<bar>n\<bar>"
  shows "int_to_float n = Inl OverflowError"
proof -
  have "(of_int (2 ^ 1024) :: rat) \<le> of_int \<bar>n\<bar>" using assms by (simp only: of_int_le_iff)
  then have "(2::rat) ^ 1024 \<le> of_int \<bar>n\<bar>" by simp
  then have "2 ^ 1024 \<le> round_double (of_int \<bar>n\<bar>)" by (rule round_double_above)
  then show ?thesis by (simp only: int_to_float_def Let_def if_True)
qed

lemma int_truediv_zero: "int_truediv a 0 = Inl ZeroDivisionError"
  by (simp add: int_truediv_def)

lemma int_truediv_cases:
  "b \<noteq> 0 \<Longrightarrow> int_truediv a b = Inl OverflowError \<or> (\<exists>q. int_truediv a b = Inr q)"
  by (simp add: int_truediv_def Let_def)

lemma int_truediv_small:
  assumes "b \<noteq> 0" and "\<bar>a\<bar> < 2 ^ 1023"
  shows "int_truediv a b \<noteq> Inl OverflowError"
proof -
  let ?q = "of_int \<bar>a\<bar> / of_int \<bar>b\<bar> :: rat"
  have b1: "(1::rat) \<le> of_int \<bar>b\<bar>"
  proof -
    from assms(1) have "1 \<le> \<bar>b\<bar>" by simp
    then have "(of_int 1 :: rat) \<le> of_int \<bar>b\<bar>" by (simp only: of_int_le_iff)
    then show ?thesis by simp
  qed
  have "?q \<le> of_int \<bar>a\<bar> / 1" using b1 by (intro divide_left_mono) simp_all
  then have qa: "?q \<le> of_int \<bar>a\<bar>" by simp
  have "(of_int \<bar>a\<bar> :: rat) < of_int (2 ^ 1023)" using assms(2) by (simp only: of_int_less_iff)
  then have "(of_int \<bar>a\<bar> :: rat) < 2 ^ 1023" by simp
  with qa have small: "?q < 2 ^ 1023" by (rule le_less_trans)
  have "round_double ?q < 2 ^ 1024"
  proof (cases "?q = 0")
    case True
    then show ?thesis by (simp only: round_double_zero) simp
  next
    case False
    moreover have "0 \<le> ?q" by simp
    ultimately have "0 < ?q" by (simp only: less_le) simp
    then show ?thesis using small by (rule round_double_below)
  qed
  then have "\<not> 2 ^ 1024 \<le> round_double ?q" by (simp only: not_le)
  then show ?thesis using assms(1) by (simp add: int_truediv_def Let_def)
qed

lemma int_truediv_large:
  assumes "b \<noteq> 0" and "2 ^ 1024 \<le> \<bar>of_int a / of_int b :: rat\<bar>"
  shows "int_truediv a b = Inl OverflowError"
proof -
  have "\<bar>of_int a / of_int b :: rat\<bar> = of_int \<bar>a\<bar> / of_int \<bar>b\<bar>" by (simp add: abs_divide)
  with assms(2) have "(2::rat) ^ 1024 \<le> of_int \<bar>a\<bar> / of_int \<bar>b\<bar>" by simp
  then have "2 ^ 1024 \<le> round_double (of_int \<bar>a\<bar> / of_int \<bar>b\<bar>)"
    by (rule round_double_above)
  then show ?thesis using assms(1) by (simp only: int_truediv_def Let_def if_True if_False)
qed

lemma safe_divide_result:
  "truediv a b = Inl OverflowError \<Longrightarrow> safe_divide a b = (Inl OverflowError, [])"
  "truediv a b = Inl ZeroDivisionError \<Longrightarrow> safe_divide a b = (Inr None, [''Error: Division by zero!''])"
  "truediv a b = Inr q \<Longrightarrow> safe_divide a b = (Inr (Some q), [])"
  by (simp_all add: safe_divide_def)

lemma truediv_numbers:
  assumes "is_number a" and "is_number b"
  shows "truediv a b = Inl OverflowError
     \<or> (is_zero b \<and> truediv a b = Inl ZeroDivisionError)
     \<or> (\<not> is_zero b \<and> (\<exists>q. truediv a b = Inr q))"
proof (cases a)
  case (AInt x)
  show ?thesis
  proof (cases b)
    case (AInt y)
    show ?thesis
      using int_truediv_cases [of y x] int_truediv_zero [of x]
      by (cases "y = 0") (auto simp: \<open>a = AInt x\<close> AInt)
  next
    case (AFloat y)
    show ?thesis
      using int_to_float_cases [of x]
      by (cases "float_is_zero y") (auto simp: \<open>a = AInt x\<close> AFloat float_truediv_def)
  next
    case (AStr s)
    then show ?thesis using assms(2) by simp
  qed
next
  case (AFloat x)
  show ?thesis
  proof (cases b)
    case (AInt y)
    show ?thesis
      using int_to_float_cases [of y]
      by (auto simp: \<open>a = AFloat x\<close> AInt float_truediv_def float_is_zero_def)
  next
    case (AFloat y)
    show ?thesis
      by (simp add: \<open>a = AFloat x\<close> AFloat float_truediv_def)
  next
    case (AStr s)
    then show ?thesis using assms(2) by simp
  qed
next
  case (AStr s)
  then show ?thesis using assms(1) by simp
qed

lemma truediv_overflow_needs_large_int:
  assumes "truediv a b = Inl OverflowError"
  shows "\<exists>n. (a = AInt n \<or> b = AInt n) \<and> 2 ^ 1023 \<le> \<bar>n\<bar>"
proof (cases a)
  case (AInt x)
  show ?thesis
  proof (cases b)
    case (AInt y)
    have "y \<noteq> 0" using assms by (auto simp: \<open>a = AInt x\<close> AInt int_truediv_zero)
    then have "\<not> \<bar>x\<bar> < 2 ^ 1023"
      using assms int_truediv_small [of y x] by (auto simp: \<open>a = AInt x\<close> AInt)
    then show ?thesis using \<open>a = AInt x\<close> by auto
  next
    case (AFloat y)
    have "int_to_float x = Inl OverflowError"
      using assms
      by (auto simp: \<open>a = AInt x\<close> AFloat float_truediv_def split: sum.splits if_splits)
    then have "\<not> \<bar>x\<bar> < 2 ^ 1023" using int_to_float_small [of x] by blast
    then show ?thesis using \<open>a = AInt x\<close> by auto
  next
    case (AStr s)
    then show ?thesis using assms by (simp add: \<open>a = AInt x\<close>)
  qed
next
  case (AFloat x)
  show ?thesis
  proof (cases b)
    case (AInt y)
    have "int_to_float y = Inl OverflowError"
      using assms
      by (auto simp: \<open>a = AFloat x\<close> AInt float_truediv_def split: sum.splits if_splits)
    then have "\<not> \<bar>y\<bar> < 2 ^ 1023" using int_to_float_small [of y] by blast
    then show ?thesis using AInt by auto
  next
    case (AFloat y)
    then show ?thesis
      using assms by (auto simp: \<open>a = AFloat x\<close> float_truediv_def split: if_splits)
  next
    case (AStr s)
    then show ?thesis using assms by (simp add: \<open>a = AFloat x\<close>)
  qed
next
  case (AStr s)
  then show ?thesis using assms by simp
qed

lemma round_double_3: "round_double 3 = 3"
proof -
  have fl: "floorlog 2 3 = 2" "floorlog 2 (Suc 0) = 1"
    by (simp_all add: compute_floorlog)
  have "ilog2 3 = 1" by (simp add: ilog2_def fl)
  then show ?thesis by (simp add: round_double_def round_half_even_def)
qed

lemma round_double_5: "round_double 5 = 5"
proof -
  have fl: "floorlog 2 5 = 3" "floorlog 2 (Suc 0) = 1"
    by (simp_all add: compute_floorlog)
  have "ilog2 5 = 2" by (simp add: ilog2_def fl)
  then show ?thesis by (simp add: round_double_def round_half_even_def)
qed

text \<open>
  C5 (as amended). For numbers \<open>a\<close> and \<open>b\<close>, ints or floats: unless the division raises
  \<open>OverflowError\<close>, which then leaves \<open>safe_divide\<close>, the call prints the
  division-by-zero message and returns \<open>None\<close> when \<open>b\<close> is zero, and returns the
  quotient \<open>a / b\<close> when \<open>b\<close> is not zero. The division raises \<open>OverflowError\<close> only
  when an int operand is at least \<open>2^1023\<close> in magnitude, so never on two floats; it does
  raise it when both are ints, \<open>b\<close> is not 0 and the exact quotient is at least
  \<open>2^1024\<close> in magnitude, and when an int operand beside a float is at least \<open>2^1024\<close>
  in magnitude. Whatever the arguments, no \<open>ZeroDivisionError\<close> and no \<open>TypeError\<close>
  leaves \<open>safe_divide\<close>; with an argument that is not a number the call prints the
  message for \<open>TypeError\<close> and returns \<open>None\<close>.
\<close>

theorem safe_divide_numbers:
  assumes "is_number a" and "is_number b"
  shows "(if truediv a b = Inl OverflowError then safe_divide a b = (Inl OverflowError, [])
          else if is_zero b then safe_divide a b = (Inr None, [''Error: Division by zero!''])
          else \<exists>q. truediv a b = Inr q \<and> safe_divide a b = (Inr (Some q), []))
    \<and> (truediv a b = Inl OverflowError \<longrightarrow>
          (\<exists>n. (a = AInt n \<or> b = AInt n) \<and> 2 ^ 1023 \<le> \<bar>n\<bar>))
    \<and> ((\<exists>x y. a = AInt x \<and> b = AInt y \<and> y \<noteq> 0 \<and> 2 ^ 1024 \<le> \<bar>of_int x / of_int y :: rat\<bar>)
        \<or> (\<exists>n x. (a = AInt n \<and> b = AFloat x \<or> a = AFloat x \<and> b = AInt n) \<and> 2 ^ 1024 \<le> \<bar>n\<bar>)
        \<longrightarrow> truediv a b = Inl OverflowError)
    \<and> fst (safe_divide c d) \<noteq> Inl ZeroDivisionError
    \<and> fst (safe_divide c d) \<noteq> Inl TypeError
    \<and> (\<not> is_number c \<or> \<not> is_number d \<longrightarrow>
          safe_divide c d = (Inr None, [''Error: Both arguments must be numbers!'']))"
proof -
  have main: "if truediv a b = Inl OverflowError then safe_divide a b = (Inl OverflowError, [])
          else if is_zero b then safe_divide a b = (Inr None, [''Error: Division by zero!''])
          else \<exists>q. truediv a b = Inr q \<and> safe_divide a b = (Inr (Some q), [])"
    using truediv_numbers [OF assms] safe_divide_result [of a b] by auto
  have needs: "truediv a b = Inl OverflowError \<longrightarrow>
          (\<exists>n. (a = AInt n \<or> b = AInt n) \<and> 2 ^ 1023 \<le> \<bar>n\<bar>)"
    using truediv_overflow_needs_large_int [of a b] by blast
  have large1: "truediv a b = Inl OverflowError"
    if "a = AInt x" "b = AInt y" "y \<noteq> 0" "2 ^ 1024 \<le> \<bar>of_int x / of_int y :: rat\<bar>" for x y
    using int_truediv_large [OF that(3,4)] that(1,2) by simp
  have large2: "truediv a b = Inl OverflowError"
    if "a = AInt n \<and> b = AFloat x \<or> a = AFloat x \<and> b = AInt n" "2 ^ 1024 \<le> \<bar>n\<bar>" for n x
    using int_to_float_large [OF that(2)] that(1) by auto
  have esc: "fst (safe_divide c d) \<noteq> Inl ZeroDivisionError \<and> fst (safe_divide c d) \<noteq> Inl TypeError"
    by (simp add: safe_divide_def split: sum.split py_error.split)
  have "truediv c d = Inl TypeError" if "\<not> is_number c \<or> \<not> is_number d"
    using that by (cases c; cases d) simp_all
  then have str: "\<not> is_number c \<or> \<not> is_number d \<longrightarrow>
      safe_divide c d = (Inr None, [''Error: Both arguments must be numbers!''])"
    by (simp add: safe_divide_def)
  show ?thesis using main needs large1 large2 esc str by blast
qed

theorem safe_divide_numbers_witness:
  "is_number (AInt 10) \<and> is_number (AInt 2) \<and> is_number (AInt 0)
   \<and> is_number (AFloat (Finite (3 / 2))) \<and> is_number (AFloat (Finite (1 / 2)))
   \<and> is_number (AFloat (Finite 0))
   \<and> safe_divide (AInt 10) (AInt 2) = (Inr (Some (Finite 5)), [])
   \<and> safe_divide (AInt 10) (AInt 0) = (Inr None, [''Error: Division by zero!''])
   \<and> safe_divide (AFloat (Finite (3 / 2))) (AFloat (Finite (1 / 2))) = (Inr (Some (Finite 3)), [])
   \<and> safe_divide (AInt 10) (AFloat (Finite 0)) = (Inr None, [''Error: Division by zero!''])
   \<and> safe_divide (AInt 10) (AStr ''hello'')
       = (Inr None, [''Error: Both arguments must be numbers!''])"
proof -
  have t1: "truediv (AInt 10) (AInt 2) = Inr (Finite 5)"
    by (simp add: int_truediv_def round_double_5)
  have t2: "truediv (AInt 10) (AInt 0) = Inl ZeroDivisionError"
    by (simp add: int_truediv_def)
  have t3: "truediv (AFloat (Finite (3 / 2))) (AFloat (Finite (1 / 2))) = Inr (Finite 3)"
    by (simp add: float_truediv_def float_is_zero_def float_quot_def float_is_inf_def
        float_negative_def float_magnitude_def make_float_def round_double_3)
  have t4: "truediv (AInt 10) (AFloat (Finite 0)) \<noteq> Inl OverflowError"
    using int_to_float_small [of 10]
    by (auto simp: float_truediv_def split: sum.splits if_splits)
  show ?thesis
    using safe_divide_numbers [of "AInt 10" "AInt 2"] safe_divide_numbers [of "AInt 10" "AInt 0"]
      safe_divide_numbers [of "AFloat (Finite (3 / 2))" "AFloat (Finite (1 / 2))"]
      safe_divide_numbers [of "AInt 10" "AFloat (Finite 0)" "AInt 10" "AStr ''hello''"]
      t1 t2 t3 t4
    by (simp add: float_is_zero_def)
qed

text \<open>
  C5 as stated fails: \<open>2^1024\<close> and 1 are numbers and the divisor is not zero, yet
  \<open>safe_divide\<close> returns nothing: the division raises \<open>OverflowError\<close>, which neither
  handler catches. The same happens for \<open>2^1024\<close> and the divisor \<open>0.0\<close>, where the
  conversion of the int fails before the divisor is tested.
\<close>

theorem safe_divide_overflow_counterexample:
  "is_number (AInt (2 ^ 1024)) \<and> is_number (AInt 1) \<and> \<not> is_zero (AInt 1)
   \<and> safe_divide (AInt (2 ^ 1024)) (AInt 1) = (Inl OverflowError, [])
   \<and> is_number (AFloat (Finite 0)) \<and> is_zero (AFloat (Finite 0))
   \<and> safe_divide (AInt (2 ^ 1024)) (AFloat (Finite 0)) = (Inl OverflowError, [])"
proof -
  have "(2::rat) ^ 1024 \<le> \<bar>of_int (2 ^ 1024) / of_int 1\<bar>" by simp
  then have "int_truediv (2 ^ 1024) 1 = Inl OverflowError"
    by (intro int_truediv_large) simp_all
  then have a: "safe_divide (AInt (2 ^ 1024)) (AInt 1) = (Inl OverflowError, [])"
    by (simp add: safe_divide_def)
  have "int_to_float (2 ^ 1024) = Inl OverflowError"
    by (intro int_to_float_large) simp
  then have b: "safe_divide (AInt (2 ^ 1024)) (AFloat (Finite 0)) = (Inl OverflowError, [])"
    by (simp add: safe_divide_def)
  show ?thesis using a b by (simp add: float_is_zero_def)
qed

subsection \<open>The transfer transaction\<close>

lemma setup_accounts_state:
  "setup_accounts a b d =
     \<lparr>committed = [(1, ''Alice'', a), (2, ''Bob'', b)],
      working = [(1, ''Alice'', a), (2, ''Bob'', b)], in_transaction = False\<rparr>"
  by (simp add: setup_accounts_def sql_commit_def sql_insert_def sql_delete_all_def)

lemma transfer_body_setup:
  "transfer_body fails
      \<lparr>committed = [(1, ''Alice'', a), (2, ''Bob'', b)],
       working = [(1, ''Alice'', a), (2, ''Bob'', b)], in_transaction = False\<rparr> =
     (if fails 0 then
        Inl (SqliteError, \<lparr>committed = [(1, ''Alice'', a), (2, ''Bob'', b)],
               working = [(1, ''Alice'', a), (2, ''Bob'', b)], in_transaction = False\<rparr>)
      else if fails 1 then
        Inl (SqliteError, \<lparr>committed = [(1, ''Alice'', a), (2, ''Bob'', b)],
               working = [(1, ''Alice'', a), (2, ''Bob'', b)], in_transaction = True\<rparr>)
      else if fails 2 then
        Inl (SqliteError, \<lparr>committed = [(1, ''Alice'', a), (2, ''Bob'', b)],
               working = [(1, ''Alice'', a - 200), (2, ''Bob'', b)], in_transaction = True\<rparr>)
      else if fails 3 then
        Inl (SqliteError, \<lparr>committed = [(1, ''Alice'', a), (2, ''Bob'', b)],
               working = [(1, ''Alice'', a - 200), (2, ''Bob'', b + 200)],
               in_transaction = True\<rparr>)
      else if a - 200 < 0 then
        (if fails 4 then
           Inl (SqliteError, \<lparr>committed = [(1, ''Alice'', a), (2, ''Bob'', b)],
                  working = [(1, ''Alice'', a - 200), (2, ''Bob'', b + 200)],
                  in_transaction = True\<rparr>)
         else Inr \<lparr>committed = [(1, ''Alice'', a), (2, ''Bob'', b)],
                working = [(1, ''Alice'', a), (2, ''Bob'', b)], in_transaction = False\<rparr>)
      else
        (if fails 4 then
           Inl (SqliteError, \<lparr>committed = [(1, ''Alice'', a), (2, ''Bob'', b)],
                  working = [(1, ''Alice'', a - 200), (2, ''Bob'', b + 200)],
                  in_transaction = True\<rparr>)
         else if fails 5 then
           Inl (SqliteError, \<lparr>committed = [(1, ''Alice'', a - 200), (2, ''Bob'', b + 200)],
                  working = [(1, ''Alice'', a - 200), (2, ''Bob'', b + 200)],
                  in_transaction = False\<rparr>)
         else Inr \<lparr>committed = [(1, ''Alice'', a - 200), (2, ''Bob'', b + 200)],
                working = [(1, ''Alice'', a - 200), (2, ''Bob'', b + 200)],
                in_transaction = False\<rparr>))"
  by (simp add: transfer_body_def sql_begin_def sql_add_balance_def
      sql_select_balance_def sql_rollback_def sql_commit_def Let_def
      cong: if_cong split del: if_split)

lemma transaction_with_committed:
  "committed (snd (transaction_with a b fails d)) =
     (if fails 0 \<or> fails 1 \<or> fails 2 \<or> fails 3 \<or> fails 4 \<or> a - 200 < 0
      then [(1, ''Alice'', a), (2, ''Bob'', b)]
      else [(1, ''Alice'', a - 200), (2, ''Bob'', b + 200)])"
  by (simp add: transaction_with_def transfer_def setup_accounts_state transfer_body_setup
      sql_close_def sql_rollback_def)

lemma transaction_with_returns:
  "fst (transaction_with a b fails d) = None \<Longrightarrow>
     working (snd (transaction_with a b fails d)) = committed (snd (transaction_with a b fails d))
     \<and> \<not> in_transaction (snd (transaction_with a b fails d))"
  by (simp add: transaction_with_def transfer_def setup_accounts_state transfer_body_setup
      sql_close_def sql_rollback_def split: if_splits)

lemma transaction_with_no_failure:
  "\<forall>k. \<not> fails k \<Longrightarrow> fst (transaction_with a b fails d) = None"
  by (simp add: transaction_with_def transfer_def setup_accounts_state transfer_body_setup)

text \<open>
  C6 (as amended). Whichever calls on the connection raise \<open>sqlite3.Error\<close>, the
  database ends in one of two states: both updates committed (Alice 200 lower, Bob 200
  higher), which requires Alice's resulting balance to be non-negative, or both balances
  as they were before the transfer. Without an error the transfer is committed exactly
  when Alice's resulting balance is non-negative. An error raised up to and including
  the commit, or a negative resulting balance, leaves both balances as they were; an
  error raised after the commit leaves the committed transfer in place. When the
  function returns, no transaction is open.
\<close>

theorem transaction_atomic:
  "(balances (committed (snd (transaction_with a b fails d)))
        = [(''Alice'', a - 200), (''Bob'', b + 200)] \<and> 0 \<le> a - 200
     \<or> balances (committed (snd (transaction_with a b fails d))) = [(''Alice'', a), (''Bob'', b)])
   \<and> ((\<forall>k. \<not> fails k) \<longrightarrow>
        fst (transaction_with a b fails d) = None
        \<and> balances (committed (snd (transaction_with a b fails d)))
            = (if 0 \<le> a - 200 then [(''Alice'', a - 200), (''Bob'', b + 200)]
               else [(''Alice'', a), (''Bob'', b)]))
   \<and> (fails 0 \<or> fails 1 \<or> fails 2 \<or> fails 3 \<or> fails 4 \<or> a - 200 < 0 \<longrightarrow>
        balances (committed (snd (transaction_with a b fails d))) = [(''Alice'', a), (''Bob'', b)])
   \<and> (fst (transaction_with a b fails d) = None \<longrightarrow>
        working (snd (transaction_with a b fails d)) = committed (snd (transaction_with a b fails d))
        \<and> \<not> in_transaction (snd (transaction_with a b fails d)))"
  using transaction_with_returns [of a b fails d] transaction_with_no_failure [of fails a b d]
  by (simp add: transaction_with_committed balances_def)

theorem transaction_atomic_witness:
  "transaction_example (\<lambda>k. False) \<lparr>committed = [], working = [], in_transaction = False\<rparr>
     = (None, \<lparr>committed = [(1, ''Alice'', 800), (2, ''Bob'', 700)],
                working = [(1, ''Alice'', 800), (2, ''Bob'', 700)], in_transaction = False\<rparr>)
   \<and> transaction_example (\<lambda>k. k = 2) \<lparr>committed = [], working = [], in_transaction = False\<rparr>
     = (None, \<lparr>committed = [(1, ''Alice'', 1000), (2, ''Bob'', 500)],
                working = [(1, ''Alice'', 1000), (2, ''Bob'', 500)], in_transaction = False\<rparr>)
   \<and> balances (committed (snd (transaction_with 100 500 (\<lambda>k. False)
         \<lparr>committed = [], working = [], in_transaction = False\<rparr>)))
     = [(''Alice'', 100), (''Bob'', 500)]"
  using transaction_atomic [of 1000 500 "\<lambda>k. False" "\<lparr>committed = [], working = [], in_transaction = False\<rparr>"]
    transaction_atomic [of 1000 500 "\<lambda>k. k = 2" "\<lparr>committed = [], working = [], in_transaction = False\<rparr>"]
    transaction_atomic [of 100 500 "\<lambda>k. False" "\<lparr>committed = [], working = [], in_transaction = False\<rparr>"]
  by (simp add: transaction_example_def transaction_with_def transfer_def setup_accounts_state
      transfer_body_setup sql_close_def sql_rollback_def balances_def)


text \<open>
  C6 as stated fails for an error after the commit: when the final \<open>SELECT\<close> (call 5)
  raises \<open>sqlite3.Error\<close>, the handler calls \<open>conn.rollback()\<close>, but the transfer is
  committed already and the balances are not as they were.
\<close>

theorem transaction_error_after_commit_counterexample:
  "transfer_body (\<lambda>k. k = 5)
       (setup_accounts 1000 500 \<lparr>committed = [], working = [], in_transaction = False\<rparr>)
     = Inl (SqliteError, \<lparr>committed = [(1, ''Alice'', 800), (2, ''Bob'', 700)],
                           working = [(1, ''Alice'', 800), (2, ''Bob'', 700)],
                           in_transaction = False\<rparr>)
   \<and> transaction_example (\<lambda>k. k = 5) \<lparr>committed = [], working = [], in_transaction = False\<rparr>
     = (None, \<lparr>committed = [(1, ''Alice'', 800), (2, ''Bob'', 700)],
                working = [(1, ''Alice'', 800), (2, ''Bob'', 700)], in_transaction = False\<rparr>)
   \<and> balances [(1, ''Alice'', 800), (2, ''Bob'', 700)] \<noteq> [(''Alice'', 1000), (''Bob'', 500)]"
  by (simp add: transaction_example_def transaction_with_def transfer_def setup_accounts_state
      transfer_body_setup sql_close_def sql_rollback_def balances_def)

end
